theory Spec2Isabelle
  imports Complex_Main "HOL-Library.Word"
begin

section \<open>The sealing worker of core/worker.go\<close>

text \<open>
  A shallow embedding of the parts of \<^verbatim>\<open>core/worker.go\<close> that assemble a block:
  the environment, uncle admission, transaction execution, the resubmit interval,
  the seal dispatcher and the pending snapshot.

  Conventions of the embedding.
  \<^item> Hashes and addresses are opaque identifiers (\<open>nat\<close>); only equality is used on them.
  \<^item> A header keeps one slot per chain context in the source (slices of length 3,
    allocated by \<^verbatim>\<open>prepareWork\<close>) and the worker reads and writes only the slot at
    \<^verbatim>\<open>types.QuaiNetworkContext\<close>. The record \<open>header\<close> holds that slot.
  \<^item> A Go \<^verbatim>\<open>error\<close> is a value of the datatype \<open>error\<close>, \<^verbatim>\<open>nil\<close> is \<open>None\<close>.
  \<^item> Collaborators that live outside this file (state database, transaction
    iterator, \<^verbatim>\<open>ApplyTransaction\<close>, the consensus engine) are parameters.
\<close>

subsection \<open>Basic types\<close>

type_synonym hash = nat
type_synonym address = nat

text \<open>A log entry, as a value.\<close>

type_synonym log = nat

text \<open>\<^verbatim>\<open>time.Duration\<close>: a count of nanoseconds.\<close>

type_synonym duration = int

record header =
  ParentHash :: hash
  Number :: int
  GasLimit :: "64 word"
  GasUsed :: "64 word"
  Time :: "64 word"

record tx =
  txHash :: hash
  txProtected :: bool
  txNonce :: "64 word"

record receipt =
  rTxHash :: hash
  Logs :: "log list"

subsection \<open>Errors\<close>

text \<open>
  The sentinel errors of the package, errors made by \<^verbatim>\<open>errors.New\<close>, and errors that
  wrap another one (\<^verbatim>\<open>fmt.Errorf("%w: ...")\<close>). \<^verbatim>\<open>errors.Is\<close> walks the chain of
  wrapped errors; with a \<^verbatim>\<open>nil\<close> error or target it compares the two.
\<close>

datatype error =
    ErrGasLimitReached
  | ErrNonceTooLow
  | ErrNonceTooHigh
  | ErrTxTypeNotSupported
  | ErrorNew string
  | Wrap string error

fun chain_has :: "error \<Rightarrow> error \<Rightarrow> bool" where
  "chain_has (Wrap m e) t = (Wrap m e = t \<or> chain_has e t)"
| "chain_has e t = (e = t)"

fun errors_Is :: "error option \<Rightarrow> error option \<Rightarrow> bool" where
  "errors_Is None t = (t = None)"
| "errors_Is (Some e) None = False"
| "errors_Is (Some e) (Some t) = chain_has e t"

subsection \<open>The environment\<close>

text \<open>
  \<open>'st\<close> is the type of the working-state handle and \<open>'r\<close> the type of a receipt
  handle. \<open>uncles\<close> is the map from hash to uncle header, kept as an association
  list (Go iterates a map in no fixed order; the list order stands for one such order).
  \<open>gasPool\<close> is a pointer: \<open>None\<close> is \<^verbatim>\<open>nil\<close>.
\<close>

record ('st, 'r) environment =
  signer :: nat
  state :: 'st
  ancestors :: "hash set"
  family :: "hash set"
  tcount :: nat
  gasPool :: "64 word option"
  coinbase :: address
  header :: header
  txs :: "tx list"
  receipts :: "'r list"
  uncles :: "(hash \<times> header) list"
  externalGasUsed :: "64 word"
  externalBlockLength :: int

subsection \<open>Uncle admission\<close>

text \<open>
  \<^verbatim>\<open>commitUncle\<close>. \<open>hashOf\<close> is \<^verbatim>\<open>Header.Hash\<close>. The result is the returned error and
  the environment after the call.
\<close>

definition commitUncle ::
  "(header \<Rightarrow> hash) \<Rightarrow> ('st, 'r) environment \<Rightarrow> header \<Rightarrow> error option \<times> ('st, 'r) environment" where
  "commitUncle hashOf env uncle =
     (let h = hashOf uncle in
      if map_of (uncles env) h \<noteq> None then (Some (ErrorNew ''uncle not unique''), env)
      else if ParentHash (header env) = ParentHash uncle then (Some (ErrorNew ''uncle is sibling''), env)
      else if ParentHash uncle \<notin> ancestors env then (Some (ErrorNew ''uncle's parent unknown''), env)
      else if h \<in> family env then (Some (ErrorNew ''uncle already included''), env)
      else (None, env\<lparr>uncles := uncles env @ [(h, uncle)]\<rparr>))"

subsection \<open>Floating point\<close>

text \<open>
  The worker computes the fill ratio and the resubmit interval in \<^verbatim>\<open>float64\<close>. The
  model keeps the special values of IEEE 754 apart and computes the finite values
  exactly, as rationals: rounding to 53 bits is not modelled, and both zeros are
  \<open>Fin 0\<close>, which divides as \<^verbatim>\<open>+0\<close> does.
\<close>

datatype f64 = Fin rat | PInf | NInf | NaN




text \<open>An infinity of the sign of \<open>a\<close>, and the invalid operation when \<open>a = 0\<close>.\<close>

definition f64_inf :: "rat \<Rightarrow> f64" where
  "f64_inf a = (if a = 0 then NaN else if 0 < a then PInf else NInf)"


fun f64_div :: "f64 \<Rightarrow> f64 \<Rightarrow> f64" where
  "f64_div (Fin a) (Fin b) = (if b = 0 then f64_inf a else Fin (a / b))"
| "f64_div NaN y = NaN"
| "f64_div x NaN = NaN"
| "f64_div (Fin a) y = Fin 0"
| "f64_div PInf (Fin b) = (if 0 \<le> b then PInf else NInf)"
| "f64_div NInf (Fin b) = (if 0 \<le> b then NInf else PInf)"
| "f64_div x y = NaN"

fun f64_lt :: "f64 \<Rightarrow> f64 \<Rightarrow> bool" where
  "f64_lt (Fin a) (Fin b) = (a < b)"
| "f64_lt NaN y = False"
| "f64_lt x NaN = False"
| "f64_lt x NInf = False"
| "f64_lt PInf y = False"
| "f64_lt NInf y = True"
| "f64_lt x PInf = True"


definition f64_of_uint64 :: "64 word \<Rightarrow> f64" where
  "f64_of_uint64 w = Fin (of_nat (unat w))"


subsection \<open>Constants\<close>

definition minRecommitInterval :: duration where
  "minRecommitInterval = 1 * 1000000000"

definition maxRecommitInterval :: duration where
  "maxRecommitInterval = 15 * 1000000000"



definition commitInterruptNone :: "32 word" where
  "commitInterruptNone = 0"

definition commitInterruptNewHead :: "32 word" where
  "commitInterruptNewHead = 1"

definition commitInterruptResubmit :: "32 word" where
  "commitInterruptResubmit = 2"

record intervalAdjust =
  ratio :: f64
  inc :: bool

subsection \<open>The resubmit interval\<close>


text \<open>
  The variables \<open>minRecommit\<close> and \<open>recommit\<close> of \<^verbatim>\<open>newWorkLoop\<close>, and the two cases
  of its \<^verbatim>\<open>select\<close> that assign them: an interval set by the user
  (\<^verbatim>\<open>resubmitIntervalCh\<close>) and a feedback (\<^verbatim>\<open>resubmitAdjustCh\<close>). The other cases
  (start, chain head, timer) read \<open>recommit\<close> to arm the timer and leave both as they are.
\<close>

record workLoop =
  minRecommit :: duration
  recommit :: duration

definition newWorkLoop :: "duration \<Rightarrow> workLoop" where
  "newWorkLoop rc = \<lparr>minRecommit = rc, recommit = rc\<rparr>"

definition resubmitInterval :: "duration \<Rightarrow> workLoop \<Rightarrow> workLoop" where
  "resubmitInterval interval l =
     (let interval = (if interval < minRecommitInterval then minRecommitInterval else interval)
      in \<lparr>minRecommit = interval, recommit = interval\<rparr>)"






subsection \<open>Worker construction\<close>

text \<open>
  The fields of \<^verbatim>\<open>worker\<close> that hold the pending snapshot. \<open>addr\<close> is a pointer into
  the store of the snapshot section; \<open>None\<close> is \<^verbatim>\<open>nil\<close>.
\<close>

type_synonym addr = nat

record block =
  blockHeader :: header
  blockTxs :: "tx list"
  blockUncles :: "header list"
  blockReceipts :: "receipt list"

record worker =
  snapshotBlock :: "block option"
  snapshotReceipts :: "addr list option"
  snapshotState :: "addr option"

text \<open>
  \<^verbatim>\<open>newWorker\<close>: the snapshot fields are not set and keep their zero values; the
  configured interval is sanitized and passed to \<^verbatim>\<open>newWorkLoop\<close>. The result is the
  worker and the state in which the resubmit loop starts.
\<close>

definition newWorker :: "duration \<Rightarrow> worker \<times> workLoop" where
  "newWorker configRecommit =
     (let rc = (if configRecommit < minRecommitInterval then minRecommitInterval else configRecommit)
      in (\<lparr>snapshotBlock = None, snapshotReceipts = None, snapshotState = None\<rparr>, newWorkLoop rc))"

subsection \<open>Transaction execution\<close>

text \<open>
  The collaborators of transaction execution.
  \<^item> \<open>Snapshot\<close>, \<open>RevertToSnapshot\<close>, \<open>Prepare\<close>, \<open>Copy\<close>, \<open>StartPrefetcher\<close>: the state
    database, each returning the state it leaves (\<open>Snapshot\<close> also the revision id).
  \<^item> \<open>ApplyTransaction\<close>: from the coinbase, the gas pool, the state, the header and
    the transaction to the error or the receipt, and the gas pool, the state and the
    header's gas-used slot as it leaves them. It reads the header and writes only that
    slot, through the pointer it is given. The gas pool is passed as the pointer it is
    in the source; a callee cannot make the caller's pointer \<^verbatim>\<open>nil\<close>, and the model,
    which lets it, covers more than the callees there are.
  \<^item> \<open>Peek\<close>, \<open>Shift\<close>, \<open>Pop\<close>: \<^verbatim>\<open>types.TransactionsByPriceAndNonce\<close>.
  \<^item> \<open>IsEIP155\<close>: the chain configuration; \<open>TxGas\<close>: \<^verbatim>\<open>params.TxGas\<close>.
\<close>

record ('st, 'it) deps =
  Snapshot :: "'st \<Rightarrow> nat \<times> 'st"
  RevertToSnapshot :: "nat \<Rightarrow> 'st \<Rightarrow> 'st"
  Prepare :: "hash \<Rightarrow> nat \<Rightarrow> 'st \<Rightarrow> 'st"
  Copy :: "'st \<Rightarrow> 'st"
  StartPrefetcher :: "'st \<Rightarrow> 'st"
  ApplyTransaction ::
    "address \<Rightarrow> 64 word option \<Rightarrow> 'st \<Rightarrow> header \<Rightarrow> tx \<Rightarrow>
       (error + receipt) \<times> 64 word option \<times> 'st \<times> 64 word"
  Peek :: "'it \<Rightarrow> tx option"
  Shift :: "'it \<Rightarrow> 'it"
  Pop :: "'it \<Rightarrow> 'it"
  IsEIP155 :: "int \<Rightarrow> bool"
  TxGas :: "64 word"

text \<open>
  \<^verbatim>\<open>commitTransaction\<close>. The result is the pair the source returns (the logs, \<open>[]\<close>
  for \<^verbatim>\<open>nil\<close>, and the error) and the environment after the call.
\<close>

definition commitTransaction ::
  "('st, 'it) deps \<Rightarrow> ('st, receipt) environment \<Rightarrow> tx option \<Rightarrow>
     (log list \<times> error option) \<times> ('st, receipt) environment" where
  "commitTransaction D env txo =
     (case txo of
        None \<Rightarrow> (([], Some (ErrorNew ''error finding transaction'')), env)
      | Some t \<Rightarrow>
          (let (snap, s1) = Snapshot D (state env);
               (res, gp, s2, used) = ApplyTransaction D (coinbase env) (gasPool env) s1 (header env) t;
               env1 = env\<lparr>state := s2, gasPool := gp, header := (header env)\<lparr>GasUsed := used\<rparr>\<rparr>
           in case res of
                Inl err \<Rightarrow> (([], Some err), env1\<lparr>state := RevertToSnapshot D snap s2\<rparr>)
              | Inr rc \<Rightarrow> ((Logs rc, None), env1\<lparr>txs := txs env1 @ [t], receipts := receipts env1 @ [rc]\<rparr>)))"

text \<open>
  The part of the loop of \<^verbatim>\<open>commitTransactions\<close> that executes the transaction \<open>t\<close>
  at the head of the iterator: \<^verbatim>\<open>Prepare\<close>, \<^verbatim>\<open>commitTransaction\<close> and the
  \<^verbatim>\<open>switch\<close> on its error. The result is the environment, the iterator and the
  coalesced logs after it.
\<close>

definition executeTx ::
  "('st, 'it) deps \<Rightarrow> ('st, receipt) environment \<Rightarrow> 'it \<Rightarrow> log list \<Rightarrow> tx \<Rightarrow>
     ('st, receipt) environment \<times> 'it \<times> log list" where
  "executeTx D env it coalescedLogs t =
     (let env0 = env\<lparr>state := Prepare D (txHash t) (tcount env) (state env)\<rparr>;
          ((logs, err), env1) = commitTransaction D env0 (Some t)
      in if errors_Is err (Some ErrGasLimitReached) then (env1, Pop D it, coalescedLogs)
         else if errors_Is err (Some ErrNonceTooLow) then (env1, Shift D it, coalescedLogs)
         else if errors_Is err (Some ErrNonceTooHigh) then (env1, Pop D it, coalescedLogs)
         else if errors_Is err None then
           (env1\<lparr>tcount := tcount env1 + 1\<rparr>, Shift D it, coalescedLogs @ logs)
         else if errors_Is err (Some ErrTxTypeNotSupported) then (env1, Pop D it, coalescedLogs)
         else (env1, Shift D it, coalescedLogs))"

text \<open>
  The interrupt is a pointer to a cell that the resubmit loop writes: \<open>None\<close> is the
  \<^verbatim>\<open>nil\<close> pointer, and \<open>Some c\<close> a cell whose value at the top of iteration \<open>k\<close> of the
  loop is \<open>c k\<close>. The resubmit loop stores into a cell once and then lets go of it, so
  the loads of one iteration that follow a load of a non-zero value read that value.
\<close>

type_synonym interrupt = "(nat \<Rightarrow> 32 word) option"

text \<open>The ratio of the gas used so far, as sent with a resubmit signal.\<close>

definition fillRatio :: "64 word \<Rightarrow> 64 word \<Rightarrow> f64" where
  "fillRatio gasLimit gas =
     (let r = f64_div (f64_of_uint64 (gasLimit - gas)) (f64_of_uint64 gasLimit)
      in if f64_lt r (Fin (1 / 10)) then Fin (1 / 10) else r)"

text \<open>
  How the loop ends: by a \<^verbatim>\<open>return\<close> on an interrupt (the returned flag and what was
  sent on \<^verbatim>\<open>resubmitAdjustCh\<close>), by a \<^verbatim>\<open>break\<close>, or by the panic of reading a
  \<^verbatim>\<open>nil\<close> gas pool.
\<close>

datatype ('st, 'it) loop_exit =
    Interrupted bool "intervalAdjust list" "('st, receipt) environment" 'it
  | Broke "('st, receipt) environment" 'it "log list"
  | NilGasPool

text \<open>
  The test of the interrupt at the top of iteration \<open>k\<close>: the exit it takes, or
  \<open>None\<close> when the loop goes on (a \<^verbatim>\<open>nil\<close> pointer, or a cell that holds
  \<^verbatim>\<open>commitInterruptNone\<close>).
\<close>

definition interrupted ::
  "interrupt \<Rightarrow> nat \<Rightarrow> 64 word \<Rightarrow> ('st, receipt) environment \<Rightarrow> 'it \<Rightarrow> ('st, 'it) loop_exit option" where
  "interrupted interrupt k gasLimit env it =
     (case interrupt of
        None \<Rightarrow> None
      | Some c \<Rightarrow>
          if c k \<noteq> commitInterruptNone then
            (if c k = commitInterruptResubmit then
               (case gasPool env of
                  None \<Rightarrow> Some NilGasPool
                | Some gas \<Rightarrow>
                    Some (Interrupted (c k = commitInterruptNewHead)
                            [\<lparr>ratio = fillRatio gasLimit gas, inc = True\<rparr>] env it))
             else Some (Interrupted (c k = commitInterruptNewHead) [] env it))
          else None)"

text \<open>
  One iteration of the loop of \<^verbatim>\<open>commitTransactions\<close>, the \<open>k\<close>-th: either the
  loop ends (\<open>Inl\<close>), or it goes on with the environment, the iterator and the
  coalesced logs of \<open>Inr\<close>.
\<close>

definition loopBody ::
  "('st, 'it) deps \<Rightarrow> interrupt \<Rightarrow> 64 word \<Rightarrow> nat \<Rightarrow> ('st, receipt) environment \<Rightarrow> 'it \<Rightarrow> log list \<Rightarrow>
     ('st, 'it) loop_exit + (('st, receipt) environment \<times> 'it \<times> log list)" where
  "loopBody D interrupt gasLimit k env it coalescedLogs =
     (case interrupted interrupt k gasLimit env it of
        Some ex \<Rightarrow> Inl ex
      | None \<Rightarrow>
         (case gasPool env of
            None \<Rightarrow> Inl NilGasPool
          | Some gas \<Rightarrow>
              if gas < TxGas D then Inl (Broke env it coalescedLogs)
              else
                (case Peek D it of
                   None \<Rightarrow> Inl (Broke env it coalescedLogs)
                 | Some t \<Rightarrow>
                     if txProtected t \<and> \<not> IsEIP155 D (Number (header env)) then
                       Inr (env, Pop D it, coalescedLogs)
                     else Inr (executeTx D env it coalescedLogs t))))"

text \<open>
  The loop, from the top of iteration \<open>k\<close>. A loop that never ends has the value
  \<open>None\<close>.
\<close>

partial_function (option) commitLoop ::
  "('st, 'it) deps \<Rightarrow> interrupt \<Rightarrow> 64 word \<Rightarrow> nat \<Rightarrow> ('st, receipt) environment \<Rightarrow> 'it \<Rightarrow> log list \<Rightarrow>
     ('st, 'it) loop_exit option" where
  "commitLoop D interrupt gasLimit k env it coalescedLogs =
     (case loopBody D interrupt gasLimit k env it coalescedLogs of
        Inl ex \<Rightarrow> Some ex
      | Inr (env', it', logs') \<Rightarrow> commitLoop D interrupt gasLimit (Suc k) env' it' logs')"

declare commitLoop.simps [code]

text \<open>
  What a call of \<^verbatim>\<open>commitTransactions\<close> leaves: the returned flag, the messages sent
  on \<^verbatim>\<open>resubmitAdjustCh\<close> in order, the logs sent on \<^verbatim>\<open>pendingLogsFeed\<close> if any, the
  environment and the iterator.
\<close>

record ('st, 'it) committed =
  returned :: bool
  adjusts :: "intervalAdjust list"
  pendingLogs :: "log list option"
  envOut :: "('st, receipt) environment"
  txsOut :: 'it

datatype ('st, 'it) outcome = Returned "('st, 'it) committed" | Panic

text \<open>
  \<^verbatim>\<open>commitTransactions\<close>. \<open>running\<close> is what \<^verbatim>\<open>isRunning\<close> answers after the loop.
\<close>

definition commitTransactions ::
  "('st, 'it) deps \<Rightarrow> bool \<Rightarrow> ('st, receipt) environment \<Rightarrow> 'it \<Rightarrow> interrupt \<Rightarrow>
     ('st, 'it) outcome option" where
  "commitTransactions D running env it interrupt =
     (let gasLimit = GasLimit (header env);
          env0 = (if gasPool env = None then env\<lparr>gasPool := Some (0 + gasLimit)\<rparr> else env)
      in case commitLoop D interrupt gasLimit 0 env0 it [] of
           None \<Rightarrow> None
         | Some NilGasPool \<Rightarrow> Some Panic
         | Some (Interrupted r sent env' it') \<Rightarrow>
             Some (Returned \<lparr>returned = r, adjusts = sent, pendingLogs = None, envOut = env', txsOut = it'\<rparr>)
         | Some (Broke env' it' logs) \<Rightarrow>
             Some (Returned
               \<lparr>returned = False,
                adjusts = (if interrupt \<noteq> None then [\<lparr>ratio = Fin 0, inc = False\<rparr>] else []),
                pendingLogs = (if \<not> running \<and> 0 < length logs then Some logs else None),
                envOut = env', txsOut = it'\<rparr>))"

subsection \<open>Making and copying an environment\<close>

text \<open>
  \<^verbatim>\<open>makeEnv\<close>. \<open>stateAt\<close> is the answer of \<^verbatim>\<open>StateAt\<close> for the parent's root and
  \<open>stateAtBlock\<close> that of \<^verbatim>\<open>StateAtBlock\<close>, asked only when the first fails;
  \<open>recent\<close> is \<^verbatim>\<open>GetBlocksFromHash(parent.Hash(), 7)\<close>, each block given by its hash and
  the hashes of its uncles.
\<close>

definition makeEnv ::
  "('st, 'it) deps \<Rightarrow> (error + 'st) \<Rightarrow> (error + 'st) \<Rightarrow> (hash \<times> hash list) list \<Rightarrow> nat \<Rightarrow>
     header \<Rightarrow> address \<Rightarrow> error + ('st, receipt) environment" where
  "makeEnv D stateAt stateAtBlock recent sg hdr cb =
     (case (case stateAt of Inl err \<Rightarrow> stateAtBlock | Inr st \<Rightarrow> Inr st) of
        Inl err \<Rightarrow> Inl err
      | Inr st \<Rightarrow>
          Inr \<lparr>signer = sg, state = StartPrefetcher D st,
               ancestors = set (map fst recent),
               family = set (map fst recent) \<union> set (concat (map snd recent)),
               tcount = 0, gasPool = None, coinbase = cb, header = hdr,
               txs = [], receipts = [], uncles = [],
               externalGasUsed = 0, externalBlockLength = 0\<rparr>)"

text \<open>
  \<^verbatim>\<open>environment.copy\<close>. The copy is built from a struct literal that names neither
  \<^verbatim>\<open>externalGasUsed\<close> nor \<^verbatim>\<open>externalBlockLength\<close>: they are zero in the copy. Receipts
  are values here, so \<^verbatim>\<open>copyReceipts\<close> leaves the list as it is.
\<close>

definition copy :: "('st, 'it) deps \<Rightarrow> ('st, receipt) environment \<Rightarrow> ('st, receipt) environment" where
  "copy D env =
     \<lparr>signer = signer env, state = Copy D (state env),
      ancestors = ancestors env, family = family env,
      tcount = tcount env, gasPool = gasPool env, coinbase = coinbase env, header = header env,
      txs = txs env, receipts = receipts env, uncles = uncles env,
      externalGasUsed = 0, externalBlockLength = 0\<rparr>"

text \<open>
  The environments the worker can hold: made by \<^verbatim>\<open>makeEnv\<close>, then changed by
  \<^verbatim>\<open>commitUncle\<close>, by \<^verbatim>\<open>commitTransactions\<close> (the only caller of
  \<^verbatim>\<open>commitTransaction\<close>), and copied.
\<close>

inductive reachable :: "('st, 'it) deps \<Rightarrow> ('st, receipt) environment \<Rightarrow> bool"
  for D :: "('st, 'it) deps" where
  made: "makeEnv D stateAt stateAtBlock recent sg hdr cb = Inr env \<Longrightarrow> reachable D env"
| uncle: "reachable D env \<Longrightarrow> reachable D (snd (commitUncle hashOf env u))"
| committed:
    "reachable D env \<Longrightarrow> commitTransactions D running env it interrupt = Some (Returned r) \<Longrightarrow>
       reachable D (envOut r)"
| copied: "reachable D env \<Longrightarrow> reachable D (copy D env)"

text \<open>The invariant of the counters of an environment.\<close>

definition counted :: "('st, 'r) environment \<Rightarrow> bool" where
  "counted env = (length (txs env) = tcount env \<and> length (receipts env) = tcount env)"

text \<open>The environment with which the loop ends.\<close>

fun exit_env :: "('st, 'it) loop_exit \<Rightarrow> ('st, receipt) environment option" where
  "exit_env (Interrupted r sent env it) = Some env"
| "exit_env (Broke env it ls) = Some env"
| "exit_env NilGasPool = None"

text \<open>
  What an exit at the top of iteration \<open>k\<close> says about the interrupt, the feedback
  and the gas pool.
\<close>

fun exit_at :: "('st, 'it) deps \<Rightarrow> interrupt \<Rightarrow> 64 word \<Rightarrow> nat \<Rightarrow> ('st, 'it) loop_exit \<Rightarrow> bool" where
  "exit_at D None gasLimit k (Interrupted r sent env it) = False"
| "exit_at D (Some c) gasLimit k (Interrupted r sent env it) =
     (c k \<noteq> commitInterruptNone \<and> r = (c k = commitInterruptNewHead) \<and>
      (if c k = commitInterruptResubmit
       then \<exists>gas. gasPool env = Some gas \<and> sent = [\<lparr>ratio = fillRatio gasLimit gas, inc = True\<rparr>]
       else sent = []))"
| "exit_at D interrupt gasLimit k (Broke env it ls) =
     ((case interrupt of None \<Rightarrow> True | Some c \<Rightarrow> c k = commitInterruptNone) \<and>
      (\<exists>gas. gasPool env = Some gas \<and> (gas < TxGas D \<or> Peek D it = None)))"
| "exit_at D interrupt gasLimit k NilGasPool = True"

subsection \<open>The seal dispatcher\<close>

text \<open>
  A task, and what \<^verbatim>\<open>taskLoop\<close> works on: its variables \<open>stopCh\<close> and \<open>prev\<close> and the
  table \<^verbatim>\<open>pendingTasks\<close> of the worker. A channel is the number under which it was
  made; \<open>made\<close> counts the channels made so far and \<open>closed\<close> lists the closed ones,
  oldest first. The test hook \<^verbatim>\<open>newTaskHook\<close> is left out.
\<close>

record 'st task =
  taskReceipts :: "receipt list"
  taskState :: 'st
  taskBlock :: block
  createdAt :: int

record 'st taskLoopVars =
  stopCh :: "nat option"
  prev :: hash
  pendingTasks :: "hash \<rightharpoonup> 'st task"
  closed :: "nat list"
  made :: nat

definition taskLoop_init :: "'st taskLoopVars" where
  "taskLoop_init = \<lparr>stopCh = None, prev = 0, pendingTasks = Map.empty, closed = [], made = 0\<rparr>"

text \<open>The closure \<^verbatim>\<open>interrupt\<close> of \<^verbatim>\<open>taskLoop\<close>: it aborts the sealing in flight.\<close>

definition interruptSeal :: "'st taskLoopVars \<Rightarrow> 'st taskLoopVars" where
  "interruptSeal l =
     (case stopCh l of
        None \<Rightarrow> l
      | Some ch \<Rightarrow> l\<lparr>closed := closed l @ [ch], stopCh := None\<rparr>)"

text \<open>
  The case of a received task. \<open>SealHash\<close> is the engine's. The branch taken when the
  seal hash is that of the previous task writes a log line and falls through: its
  \<^verbatim>\<open>continue\<close> is commented out in the source.
\<close>

definition taskLoop_task :: "(header \<Rightarrow> hash) \<Rightarrow> 'st task \<Rightarrow> 'st taskLoopVars \<Rightarrow> 'st taskLoopVars" where
  "taskLoop_task SealHash task l =
     (let sealHash = SealHash (blockHeader (taskBlock task));
          l0 = (if sealHash = prev l then l else l);
          l1 = interruptSeal l0;
          l2 = l1\<lparr>stopCh := Some (made l1), made := Suc (made l1), prev := sealHash\<rparr>
      in l2\<lparr>pendingTasks := (pendingTasks l2)(sealHash \<mapsto> task)\<rparr>)"

text \<open>The loop over what it receives: a task, or the closing of \<^verbatim>\<open>exitCh\<close>.\<close>

datatype 'st taskEvent = TaskEv "'st task" | ExitEv

fun taskLoop :: "(header \<Rightarrow> hash) \<Rightarrow> 'st taskEvent list \<Rightarrow> 'st taskLoopVars \<Rightarrow> 'st taskLoopVars" where
  "taskLoop SealHash [] l = l"
| "taskLoop SealHash (TaskEv task # evs) l = taskLoop SealHash evs (taskLoop_task SealHash task l)"
| "taskLoop SealHash (ExitEv # evs) l = interruptSeal l"

subsection \<open>The pending snapshot\<close>

text \<open>
  The snapshot shares objects with the environment and with its readers, so the
  state databases and the receipts live in a store and are named by their addresses.
  \<open>stateNext\<close> and \<open>receiptNext\<close> are the first addresses not yet allocated.

  A receipt in memory is a struct whose field \<^verbatim>\<open>Logs\<close> is a slice of pointers to log
  entries (\<^verbatim>\<open>[]*types.Log\<close>, the type \<^verbatim>\<open>commitTransaction\<close> returns it with). The
  log entries are objects of the store too: they are written after they have been
  made, when the logs of a mined block are filled in, as the comment in
  \<^verbatim>\<open>commitTransactions\<close> says. \<open>receiptAt\<close> reads the receipt behind a pointer, with
  the log entries as they are in the store.
\<close>

record receiptStruct =
  structTxHash :: hash
  structLogs :: "addr list"

record 'sv store =
  stateObjs :: "addr \<Rightarrow> 'sv"
  stateNext :: addr
  receiptObjs :: "addr \<Rightarrow> receiptStruct"
  receiptNext :: addr
  logObjs :: "addr \<Rightarrow> log"

definition receiptAt :: "'sv store \<Rightarrow> addr \<Rightarrow> receipt" where
  "receiptAt h a =
     \<lparr>rTxHash = structTxHash (receiptObjs h a), Logs = map (logObjs h) (structLogs (receiptObjs h a))\<rparr>"

text \<open>
  \<^verbatim>\<open>copyReceipts\<close>: every receipt struct is copied into a new variable
  (\<^verbatim>\<open>cpy := *l\<close>), whose address goes into the result. The copy of the struct has the
  pointers of the original in its \<^verbatim>\<open>Logs\<close>; no log entry is copied.
\<close>

fun copyReceipts :: "addr list \<Rightarrow> 'sv store \<Rightarrow> addr list \<times> 'sv store" where
  "copyReceipts [] h = ([], h)"
| "copyReceipts (l # ls) h =
     (let a = receiptNext h;
          h1 = h\<lparr>receiptObjs := (receiptObjs h)(a := receiptObjs h l), receiptNext := Suc a\<rparr>;
          (as, h2) = copyReceipts ls h1
      in (a # as, h2))"

definition unclelist :: "('st, 'r) environment \<Rightarrow> header list" where
  "unclelist env = map snd (uncles env)"

text \<open>
  \<^verbatim>\<open>StateDB.Copy\<close> is a parameter \<open>cp\<close>: from the address of a state and the store to
  the address of the copy and the store after the call. \<open>deepCopy\<close> is its contract: the
  copy is a new object with the value of the original, and no object that existed
  changes.
\<close>

definition deepCopy :: "(addr \<Rightarrow> 'sv store \<Rightarrow> addr \<times> 'sv store) \<Rightarrow> bool" where
  "deepCopy cp =
     (\<forall>a h. a < stateNext h \<longrightarrow>
        (case cp a h of
           (b, h') \<Rightarrow>
             stateNext h \<le> b \<and> b < stateNext h' \<and> stateObjs h' b = stateObjs h a \<and>
             (\<forall>x < stateNext h. stateObjs h' x = stateObjs h x) \<and>
             receiptObjs h' = receiptObjs h \<and> receiptNext h' = receiptNext h \<and>
             logObjs h' = logObjs h))"

text \<open>
  \<^verbatim>\<open>updateSnapshot\<close>. A block is given by what \<^verbatim>\<open>types.NewBlock\<close> builds it from: the
  header, the transactions, the uncles and the receipts as they are at that time.
\<close>

definition updateSnapshot ::
  "(addr \<Rightarrow> 'sv store \<Rightarrow> addr \<times> 'sv store) \<Rightarrow> worker \<Rightarrow> (addr, addr) environment \<Rightarrow> 'sv store \<Rightarrow>
     worker \<times> 'sv store" where
  "updateSnapshot cp w env h =
     (let b = \<lparr>blockHeader = header env, blockTxs = txs env, blockUncles = unclelist env,
               blockReceipts = map (receiptAt h) (receipts env)\<rparr>;
          (rs, h1) = copyReceipts (receipts env) h;
          (s, h2) = cp (state env) h1
      in (w\<lparr>snapshotBlock := Some b, snapshotReceipts := Some rs, snapshotState := Some s\<rparr>, h2))"

text \<open>\<^verbatim>\<open>pending\<close>, \<^verbatim>\<open>pendingBlock\<close> and \<^verbatim>\<open>pendingBlockAndReceipts\<close>.\<close>

definition pending ::
  "(addr \<Rightarrow> 'sv store \<Rightarrow> addr \<times> 'sv store) \<Rightarrow> worker \<Rightarrow> 'sv store \<Rightarrow>
     (block option \<times> addr option) \<times> 'sv store" where
  "pending cp w h =
     (case snapshotState w of
        None \<Rightarrow> ((None, None), h)
      | Some s \<Rightarrow> (let (s', h') = cp s h in ((snapshotBlock w, Some s'), h')))"

definition pendingBlock :: "worker \<Rightarrow> block option" where
  "pendingBlock w = snapshotBlock w"

definition pendingBlockAndReceipts :: "worker \<Rightarrow> block option \<times> addr list option" where
  "pendingBlockAndReceipts w = (snapshotBlock w, snapshotReceipts w)"

subsection \<open>A small chain to run the definitions on\<close>

text \<open>
  A state is a counter (the nonce of the one account) with the journal of its
  snapshots. A transaction costs 21000 gas and needs the nonce of the account.
\<close>

definition exApply ::
  "address \<Rightarrow> 64 word option \<Rightarrow> nat \<times> nat list \<Rightarrow> header \<Rightarrow> tx \<Rightarrow>
     (error + receipt) \<times> 64 word option \<times> (nat \<times> nat list) \<times> 64 word" where
  "exApply cb gp st hdr t =
     (case gp of
        None \<Rightarrow> (Inl (ErrorNew ''no gas pool''), gp, st, GasUsed hdr)
      | Some g \<Rightarrow>
          if g < 21000 then (Inl ErrGasLimitReached, gp, st, GasUsed hdr)
          else if unat (txNonce t) < fst st then
            (Inl (Wrap ''nonce too low'' ErrNonceTooLow), gp, (fst st + 100, snd st), GasUsed hdr)
          else if fst st < unat (txNonce t) then
            (Inl (Wrap ''nonce too high'' ErrNonceTooHigh), gp, st, GasUsed hdr)
          else (Inr \<lparr>rTxHash = txHash t, Logs = [txHash t]\<rparr>, Some (g - 21000),
                (fst st + 1, snd st), GasUsed hdr + 21000))"

definition exDeps :: "(nat \<times> nat list, tx list list) deps" where
  "exDeps =
     \<lparr>Snapshot = (\<lambda>(v, j). (length j, (v, j @ [v]))),
      RevertToSnapshot = (\<lambda>n (v, j). (if n < length j then (j ! n, take n j) else (v, j))),
      Prepare = (\<lambda>h i st. st),
      Copy = (\<lambda>st. st),
      StartPrefetcher = (\<lambda>st. st),
      ApplyTransaction = exApply,
      Peek = (\<lambda>it. case it of [] \<Rightarrow> None | [] # bs \<Rightarrow> None | (t # ts) # bs \<Rightarrow> Some t),
      Shift = (\<lambda>it. case it of [] \<Rightarrow> [] | [] # bs \<Rightarrow> bs | [t] # bs \<Rightarrow> bs | (t # ts) # bs \<Rightarrow> ts # bs),
      Pop = (\<lambda>it. case it of [] \<Rightarrow> [] | b # bs \<Rightarrow> bs),
      IsEIP155 = (\<lambda>n. True),
      TxGas = 21000\<rparr>"

definition exHeader :: header where
  "exHeader = \<lparr>ParentHash = 7, Number = 8, GasLimit = 50000, GasUsed = 0, Time = 0\<rparr>"

definition exEnv :: "(nat \<times> nat list, receipt) environment" where
  "exEnv =
     \<lparr>signer = 0, state = (6, []), ancestors = {7, 6, 5}, family = {7, 6, 5, 60},
      tcount = 0, gasPool = None, coinbase = 1, header = exHeader,
      txs = [], receipts = [], uncles = [], externalGasUsed = 0, externalBlockLength = 0\<rparr>"

definition exTx :: "nat \<Rightarrow> tx" where
  "exTx n = \<lparr>txHash = 100 + n, txProtected = True, txNonce = of_nat n\<rparr>"

text \<open>A side block on the parent 6, and a header hash that tells blocks by their time.\<close>

definition exUncle :: header where
  "exUncle = \<lparr>ParentHash = 6, Number = 7, GasLimit = 50000, GasUsed = 0, Time = 3\<rparr>"

definition exHash :: "header \<Rightarrow> hash" where
  "exHash u = 1000 + ParentHash u * 10 + unat (Time u)"

definition exTask :: "int \<Rightarrow> unit task" where
  "exTask created =
     \<lparr>taskReceipts = [], taskState = (),
      taskBlock = \<lparr>blockHeader = exHeader, blockTxs = [], blockUncles = [], blockReceipts = []\<rparr>,
      createdAt = created\<rparr>"

text \<open>
  A store with one state, one receipt and its one log entry, and the copy that
  allocates; an environment that points into it; and the snapshot that a new worker
  takes of it.
\<close>

definition exCopy :: "addr \<Rightarrow> nat store \<Rightarrow> addr \<times> nat store" where
  "exCopy a h =
     (stateNext h, h\<lparr>stateObjs := (stateObjs h)(stateNext h := stateObjs h a), stateNext := Suc (stateNext h)\<rparr>)"

definition exStore :: "nat store" where
  "exStore =
     \<lparr>stateObjs = (\<lambda>a. 0)(0 := 6), stateNext = 1,
      receiptObjs = (\<lambda>a. \<lparr>structTxHash = 0, structLogs = []\<rparr>)
                      (0 := \<lparr>structTxHash = 106, structLogs = [0]\<rparr>),
      receiptNext = 1,
      logObjs = (\<lambda>a. 0)(0 := 106)\<rparr>"

definition exPtrEnv :: "(addr, addr) environment" where
  "exPtrEnv =
     \<lparr>signer = 0, state = 0, ancestors = {7, 6, 5}, family = {7, 6, 5, 60},
      tcount = 1, gasPool = Some 29000, coinbase = 1, header = exHeader,
      txs = [exTx 6], receipts = [0], uncles = [], externalGasUsed = 0, externalBlockLength = 0\<rparr>"

definition exSnapshot :: "worker \<times> nat store" where
  "exSnapshot = updateSnapshot exCopy (fst (newWorker 0)) exPtrEnv exStore"

text \<open>
  An interrupt cell that is written with \<open>s\<close> before iteration \<open>n\<close>, a batch of three
  transactions of the one account, a size of the iterator, and the environment after
  the second of them has been executed.
\<close>

definition exCell :: "nat \<Rightarrow> 32 word \<Rightarrow> nat \<Rightarrow> 32 word" where
  "exCell n s k = (if k < n then 0 else s)"

definition exTxs :: "tx list list" where
  "exTxs = [[exTx 5, exTx 6, exTx 7]]"

definition exLen :: "tx list list \<Rightarrow> nat" where
  "exLen it = length (concat it) + length it"

definition exAfter :: "(nat \<times> nat list, receipt) environment" where
  "exAfter =
     exEnv\<lparr>state := (7, [6]), tcount := 1, gasPool := Some 29000,
           header := exHeader\<lparr>GasUsed := 21000\<rparr>,
           txs := [exTx 6], receipts := [\<lparr>rTxHash = 106, Logs = [106]\<rparr>]\<rparr>"

section \<open>Theorems\<close>

subsection \<open>Lemmas on the loop of commitTransactions\<close>

lemma errors_Is_nil: "errors_Is err None = (err = None)"
  by (cases err) simp_all

lemma commitTransaction_lengths:
  assumes "commitTransaction D env txo = ((logs, err), env')"
  shows "tcount env' = tcount env"
    and "err = None \<Longrightarrow> length (txs env') = Suc (length (txs env)) \<and> length (receipts env') = Suc (length (receipts env))"
    and "err \<noteq> None \<Longrightarrow> txs env' = txs env \<and> receipts env' = receipts env"
  using assms
  by (auto simp: commitTransaction_def Let_def split: option.splits prod.splits sum.splits)

lemma executeTx_counted:
  assumes "executeTx D env it ls t = (env', it', ls')" "counted env"
  shows "counted env'"
proof -
  obtain logs err env1 where c: "commitTransaction D (env\<lparr>state := Prepare D (txHash t) (tcount env) (state env)\<rparr>) (Some t) = ((logs, err), env1)"
    by (metis prod.exhaust)
  note L = commitTransaction_lengths[OF c]
  show ?thesis
  proof (cases err)
    case None
    with assms c L show ?thesis by (auto simp: executeTx_def counted_def Let_def)
  next
    case (Some e)
    with assms c L show ?thesis by (auto simp: executeTx_def counted_def Let_def split: if_splits)
  qed
qed

lemma commitLoop_rule:
  assumes run: "commitLoop D interrupt gasLimit k env it ls = Some ex"
    and init: "I k env it ls"
    and step: "\<And>k env it ls env' it' ls'.
                 I k env it ls \<Longrightarrow> loopBody D interrupt gasLimit k env it ls = Inr (env', it', ls') \<Longrightarrow>
                 I (Suc k) env' it' ls'"
    and stop: "\<And>k env it ls ex.
                 I k env it ls \<Longrightarrow> loopBody D interrupt gasLimit k env it ls = Inl ex \<Longrightarrow> R ex"
  shows "R ex"
proof -
  have "D = D \<and> interrupt = interrupt \<and> gasLimit = gasLimit \<longrightarrow> I k env it ls \<longrightarrow> R ex"
  proof (rule commitLoop.raw_induct
      [where P = "\<lambda>D' i' g' k env it ls ex.
                    D' = D \<and> i' = interrupt \<and> g' = gasLimit \<longrightarrow> I k env it ls \<longrightarrow> R ex",
       OF _ run])
    fix f :: "('a, 'b) deps \<Rightarrow> interrupt \<Rightarrow> 64 word \<Rightarrow> nat \<Rightarrow> ('a, receipt) environment \<Rightarrow> 'b \<Rightarrow> log list \<Rightarrow>
                ('a, 'b) loop_exit option"
    fix D' i' g' k env it ls ex
    assume IH: "\<And>D' i' g' k env it ls ex. f D' i' g' k env it ls = Some ex \<Longrightarrow>
                  D' = D \<and> i' = interrupt \<and> g' = gasLimit \<longrightarrow> I k env it ls \<longrightarrow> R ex"
    assume body: "(case loopBody D' i' g' k env it ls of
                     Inl ex \<Rightarrow> Some ex
                   | Inr (env', it', logs') \<Rightarrow> f D' i' g' (Suc k) env' it' logs') = Some ex"
    show "D' = D \<and> i' = interrupt \<and> g' = gasLimit \<longrightarrow> I k env it ls \<longrightarrow> R ex"
    proof (intro impI, elim conjE)
      assume eq: "D' = D" "i' = interrupt" "g' = gasLimit" and inv: "I k env it ls"
      show "R ex"
      proof (cases "loopBody D interrupt gasLimit k env it ls")
        case (Inl e)
        with body eq have "e = ex" by simp
        with Inl stop[OF inv] show ?thesis by simp
      next
        case (Inr n)
        obtain env' it' ls' where n: "n = (env', it', ls')" by (cases n) auto
        with Inr body eq have "f D interrupt gasLimit (Suc k) env' it' ls' = Some ex" by simp
        moreover have "I (Suc k) env' it' ls'" using step[OF inv] Inr n by simp
        ultimately show ?thesis using IH by blast
      qed
    qed
  qed
  with init show ?thesis by simp
qed

lemma loopBody_counted:
  "counted env \<Longrightarrow> loopBody D interrupt gasLimit k env it ls = Inr (env', it', ls') \<Longrightarrow> counted env'"
  by (auto simp: loopBody_def split: option.splits if_splits dest: executeTx_counted)

lemma loopBody_exit_env:
  "loopBody D interrupt gasLimit k env it ls = Inl ex \<Longrightarrow> exit_env ex = Some env' \<Longrightarrow> env' = env"
  by (auto simp: loopBody_def interrupted_def split: option.splits if_splits)

lemma commitLoop_counted:
  assumes run: "commitLoop D interrupt gasLimit k env it ls = Some ex"
    and c: "counted env" and e: "exit_env ex = Some env'"
  shows "counted env'"
proof -
  have "\<forall>env'. exit_env ex = Some env' \<longrightarrow> counted env'"
    by (rule commitLoop_rule[OF run, where I = "\<lambda>k env it ls. counted env"])
       (use c in \<open>auto dest: loopBody_counted loopBody_exit_env\<close>)
  with e show ?thesis by blast
qed


lemma executeTx_pop_or_shift:
  "executeTx D env it ls t = (env', it', ls') \<Longrightarrow> it' = Pop D it \<or> it' = Shift D it"
  by (auto simp: executeTx_def Let_def split: prod.splits if_splits)

lemma loopBody_goes_on:
  "loopBody D interrupt gasLimit k env it ls = Inr (env', it', ls') \<Longrightarrow>
     \<exists>t. Peek D it = Some t \<and> (it' = Pop D it \<or> it' = Shift D it)"
  by (auto simp: loopBody_def split: option.splits if_splits dest: executeTx_pop_or_shift)

lemma commitLoop_returns:
  assumes m: "\<And>it t. Peek D it = Some t \<Longrightarrow> m (Shift D it) < m it \<and> m (Pop D it) < (m it :: nat)"
  shows "\<exists>ex. commitLoop D interrupt gasLimit k env it ls = Some ex"
proof (induction "m it" arbitrary: k env it ls rule: less_induct)
  case less
  show ?case
  proof (cases "loopBody D interrupt gasLimit k env it ls")
    case (Inl e)
    then show ?thesis by (subst commitLoop.simps) simp
  next
    case (Inr n)
    obtain env' it' ls' where n: "n = (env', it', ls')" by (cases n) auto
    from loopBody_goes_on[OF Inr[unfolded n]] m have "m it' < m it" by auto
    from less[OF this] obtain ex where "commitLoop D interrupt gasLimit (Suc k) env' it' ls' = Some ex" by blast
    with Inr n show ?thesis by (subst commitLoop.simps) simp
  qed
qed

lemma commitLoop_new_head:
  "c k = commitInterruptNewHead \<Longrightarrow>
     commitLoop D (Some c) gasLimit k env it ls = Some (Interrupted True [] env it)"
  by (subst commitLoop.simps)
     (simp add: loopBody_def interrupted_def commitInterruptNewHead_def commitInterruptNone_def
        commitInterruptResubmit_def)

lemma commitLoop_resubmit:
  "c k = commitInterruptResubmit \<Longrightarrow> gasPool env = Some gas \<Longrightarrow>
     commitLoop D (Some c) gasLimit k env it ls =
       Some (Interrupted False [\<lparr>ratio = fillRatio gasLimit gas, inc = True\<rparr>] env it)"
  by (subst commitLoop.simps)
     (simp add: loopBody_def interrupted_def commitInterruptNewHead_def commitInterruptNone_def
        commitInterruptResubmit_def)

lemma commitLoop_break:
  "interrupted interrupt k gasLimit env it = None \<Longrightarrow> gasPool env = Some gas \<Longrightarrow>
   gas < TxGas D \<or> Peek D it = None \<Longrightarrow>
     commitLoop D interrupt gasLimit k env it ls = Some (Broke env it ls)"
  by (subst commitLoop.simps) (auto simp: loopBody_def)

lemma fillRatio_value:
  assumes "gas \<le> gasLimit" "gasLimit \<noteq> 0"
  shows "fillRatio gasLimit gas = Fin (max (1 / 10) (of_nat (unat gasLimit - unat gas) / of_nat (unat gasLimit)))"
proof -
  define a :: rat where "a = of_nat (unat gasLimit - unat gas)"
  define b :: rat where "b = of_nat (unat gasLimit)"
  have "unat (gasLimit - gas) = unat gasLimit - unat gas" using assms(1) by (simp add: unat_sub)
  then have n: "f64_of_uint64 (gasLimit - gas) = Fin a" by (simp only: f64_of_uint64_def a_def)
  have d: "f64_of_uint64 gasLimit = Fin b" by (simp only: f64_of_uint64_def b_def)
  have "unat gasLimit \<noteq> 0" using assms(2) by (simp add: unat_eq_0)
  then have b0: "b \<noteq> 0" by (simp only: b_def of_nat_eq_0_iff not_False_eq_True)
  have "fillRatio gasLimit gas = Fin (max (1 / 10) (a / b))"
    unfolding fillRatio_def n d using b0 by (simp add: Let_def max_def)
  then show ?thesis by (simp only: a_def b_def)
qed


lemma loopBody_exit_at:
  "loopBody D interrupt gasLimit k env it ls = Inl ex \<Longrightarrow> exit_at D interrupt gasLimit k ex"
  by (cases interrupt) (auto simp: loopBody_def interrupted_def split: option.splits if_splits)

lemma loopBody_not_interrupted:
  "loopBody D (Some c) gasLimit k env it ls = Inr n \<Longrightarrow> c k = commitInterruptNone"
  by (auto simp: loopBody_def interrupted_def split: option.splits if_splits)

lemma commitLoop_exit_at:
  assumes run: "commitLoop D interrupt gasLimit 0 env it ls = Some ex"
  shows "\<exists>k. (\<forall>c. interrupt = Some c \<longrightarrow> (\<forall>i<k. c i = commitInterruptNone)) \<and>
             exit_at D interrupt gasLimit k ex"
proof (rule commitLoop_rule[OF run,
      where I = "\<lambda>k env it ls. \<forall>c. interrupt = Some c \<longrightarrow> (\<forall>i<k. c i = commitInterruptNone)"])
  show "\<forall>c. interrupt = Some c \<longrightarrow> (\<forall>i<0. c i = commitInterruptNone)" by simp
next
  fix k env it ls env' it' ls'
  assume I: "\<forall>c. interrupt = Some c \<longrightarrow> (\<forall>i<k. c i = commitInterruptNone)"
    and b: "loopBody D interrupt gasLimit k env it ls = Inr (env', it', ls')"
  show "\<forall>c. interrupt = Some c \<longrightarrow> (\<forall>i<Suc k. c i = commitInterruptNone)"
  proof (intro allI impI)
    fix c i
    assume c: "interrupt = Some c" and i: "i < Suc k"
    from b c have "c k = commitInterruptNone" by (simp add: loopBody_not_interrupted)
    moreover from I c have "\<forall>i<k. c i = commitInterruptNone" by simp
    ultimately show "c i = commitInterruptNone" using i by (cases "i = k") simp_all
  qed
next
  fix k env it ls ex
  assume I: "\<forall>c. interrupt = Some c \<longrightarrow> (\<forall>i<k. c i = commitInterruptNone)"
    and b: "loopBody D interrupt gasLimit k env it ls = Inl ex"
  from b have "exit_at D interrupt gasLimit k ex" by (rule loopBody_exit_at)
  with I show "\<exists>k. (\<forall>c. interrupt = Some c \<longrightarrow> (\<forall>i<k. c i = commitInterruptNone)) \<and>
             exit_at D interrupt gasLimit k ex"
    by (intro exI[of _ k] conjI)
qed

lemma commitTransactions_signal:
  assumes "commitTransactions D running env it (Some c) = Some (Returned r)"
  shows "\<exists>k. (\<forall>i<k. c i = commitInterruptNone) \<and>
     (if c k = commitInterruptNewHead then returned r \<and> adjusts r = []
      else if c k = commitInterruptResubmit then
        \<not> returned r \<and>
        (\<exists>gas. gasPool (envOut r) = Some gas \<and>
               adjusts r = [\<lparr>ratio = fillRatio (GasLimit (header env)) gas, inc = True\<rparr>])
      else if c k = commitInterruptNone then
        \<not> returned r \<and> adjusts r = [\<lparr>ratio = Fin 0, inc = False\<rparr>] \<and>
        (\<exists>gas. gasPool (envOut r) = Some gas \<and> (gas < TxGas D \<or> Peek D (txsOut r) = None))
      else \<not> returned r \<and> adjusts r = [])"
proof -
  let ?env0 = "if gasPool env = None then env\<lparr>gasPool := Some (0 + GasLimit (header env))\<rparr> else env"
  from assms obtain ex where run: "commitLoop D (Some c) (GasLimit (header env)) 0 ?env0 it [] = Some ex"
    by (auto simp: commitTransactions_def Let_def split: option.splits)
  from commitLoop_exit_at[OF run] obtain k where
    z: "\<forall>i<k. c i = commitInterruptNone" and e: "exit_at D (Some c) (GasLimit (header env)) k ex"
    by auto
  have "(if c k = commitInterruptNewHead then returned r \<and> adjusts r = []
      else if c k = commitInterruptResubmit then
        \<not> returned r \<and>
        (\<exists>gas. gasPool (envOut r) = Some gas \<and>
               adjusts r = [\<lparr>ratio = fillRatio (GasLimit (header env)) gas, inc = True\<rparr>])
      else if c k = commitInterruptNone then
        \<not> returned r \<and> adjusts r = [\<lparr>ratio = Fin 0, inc = False\<rparr>] \<and>
        (\<exists>gas. gasPool (envOut r) = Some gas \<and> (gas < TxGas D \<or> Peek D (txsOut r) = None))
      else \<not> returned r \<and> adjusts r = [])"
    using assms run e
    by (cases ex)
       (auto simp: commitTransactions_def Let_def commitInterruptNewHead_def commitInterruptNone_def
          commitInterruptResubmit_def split: if_splits)
  with z show ?thesis by blast
qed

lemma commitTransactions_nil_interrupt:
  assumes "commitTransactions D running env it None = Some (Returned r)"
  shows "\<not> returned r \<and> adjusts r = []"
proof -
  let ?env0 = "if gasPool env = None then env\<lparr>gasPool := Some (0 + GasLimit (header env))\<rparr> else env"
  from assms obtain ex where run: "commitLoop D None (GasLimit (header env)) 0 ?env0 it [] = Some ex"
    by (auto simp: commitTransactions_def Let_def split: option.splits)
  from commitLoop_exit_at[OF run] obtain k where e: "exit_at D None (GasLimit (header env)) k ex"
    by auto
  show ?thesis using assms run e by (cases ex) (auto simp: commitTransactions_def Let_def)
qed

lemma commitTransactions_returns:
  assumes m: "\<And>it t. Peek D it = Some t \<Longrightarrow> m (Shift D it) < m it \<and> m (Pop D it) < (m it :: nat)"
  shows "commitTransactions D running env it interrupt \<noteq> None"
proof -
  let ?env0 = "if gasPool env = None then env\<lparr>gasPool := Some (0 + GasLimit (header env))\<rparr> else env"
  have "\<exists>ex. commitLoop D interrupt (GasLimit (header env)) 0 ?env0 it [] = Some ex"
    by (rule commitLoop_returns[where m = m]) (rule m)
  then obtain ex where "commitLoop D interrupt (GasLimit (header env)) 0 ?env0 it [] = Some ex" ..
  then show ?thesis by (cases ex) (auto simp: commitTransactions_def Let_def)
qed

lemma commitTransaction_gasPool:
  assumes keep: "\<forall>cb g s h t. fst (snd (ApplyTransaction D cb (Some g) s h t)) \<noteq> None"
    and "gasPool env \<noteq> None"
  shows "gasPool (snd (commitTransaction D env txo)) \<noteq> None"
proof (cases txo)
  case None
  with assms(2) show ?thesis by (simp add: commitTransaction_def)
next
  case (Some t)
  from assms(2) obtain g where g: "gasPool env = Some g" by auto
  obtain snap s1 where sn: "Snapshot D (state env) = (snap, s1)" by (cases "Snapshot D (state env)") auto
  obtain res gp s2 used where
    ap: "ApplyTransaction D (coinbase env) (Some g) s1 (header env) t = (res, gp, s2, used)"
    by (cases "ApplyTransaction D (coinbase env) (Some g) s1 (header env) t") auto
  from keep have "fst (snd (ApplyTransaction D (coinbase env) (Some g) s1 (header env) t)) \<noteq> None"
    by blast
  with ap have "gp \<noteq> None" by simp
  with Some g sn ap show ?thesis
    by (cases res) (simp_all add: commitTransaction_def Let_def)
qed

lemma loopBody_gasPool:
  assumes keep: "\<forall>cb g s h t. fst (snd (ApplyTransaction D cb (Some g) s h t)) \<noteq> None"
    and "gasPool env \<noteq> None"
    and "loopBody D interrupt gasLimit k env it ls = Inr (env', it', ls')"
  shows "gasPool env' \<noteq> None"
proof -
  have ex: "gasPool e' \<noteq> None" if "executeTx D env it ls t = (e', i', l')" for t e' i' l'
  proof -
    let ?e = "env\<lparr>state := Prepare D (txHash t) (tcount env) (state env)\<rparr>"
    have "gasPool ?e \<noteq> None" using assms(2) by simp
    from commitTransaction_gasPool[OF keep this, of "Some t"] that
    show ?thesis by (auto simp: executeTx_def Let_def split: prod.splits if_splits)
  qed
  from assms(3) show ?thesis
    using assms(2) ex
    by (auto simp: loopBody_def split: option.splits if_splits)
qed

lemma loopBody_no_panic:
  "gasPool env \<noteq> None \<Longrightarrow> loopBody D interrupt gasLimit k env it ls \<noteq> Inl NilGasPool"
  by (auto simp: loopBody_def interrupted_def split: option.splits if_splits)

lemma commitTransactions_no_panic:
  assumes keep: "\<forall>cb g s h t. fst (snd (ApplyTransaction D cb (Some g) s h t)) \<noteq> None"
  shows "commitTransactions D running env it interrupt \<noteq> Some Panic"
proof
  assume p: "commitTransactions D running env it interrupt = Some Panic"
  let ?env0 = "if gasPool env = None then env\<lparr>gasPool := Some (0 + GasLimit (header env))\<rparr> else env"
  from p have run: "commitLoop D interrupt (GasLimit (header env)) 0 ?env0 it [] = Some NilGasPool"
    by (auto simp: commitTransactions_def Let_def split: option.splits loop_exit.splits)
  have g0: "gasPool ?env0 \<noteq> None" by simp
  have "NilGasPool \<noteq> (NilGasPool :: ('a, 'b) loop_exit)"
  proof (rule commitLoop_rule[OF run, where I = "\<lambda>k env it ls. gasPool env \<noteq> None"
        and R = "\<lambda>ex. ex \<noteq> NilGasPool"])
    show "gasPool ?env0 \<noteq> None" by (rule g0)
  next
    fix k e i ls e' i' ls'
    assume "gasPool e \<noteq> None" "loopBody D interrupt (GasLimit (header env)) k e i ls = Inr (e', i', ls')"
    then show "gasPool e' \<noteq> None" by (rule loopBody_gasPool[OF keep])
  next
    fix k e i ls ex
    assume "gasPool e \<noteq> None" "loopBody D interrupt (GasLimit (header env)) k e i ls = Inl ex"
    then show "ex \<noteq> NilGasPool" using loopBody_no_panic[of e D interrupt "GasLimit (header env)" k i ls] by auto
  qed
  then show False by simp
qed

lemma commitTransactions_counted:
  assumes "commitTransactions D running env it interrupt = Some (Returned r)" "counted env"
  shows "counted (envOut r)"
proof -
  let ?env0 = "if gasPool env = None then env\<lparr>gasPool := Some (0 + GasLimit (header env))\<rparr> else env"
  from assms obtain ex where run: "commitLoop D interrupt (GasLimit (header env)) 0 ?env0 it [] = Some ex"
    by (auto simp: commitTransactions_def Let_def split: option.splits)
  have c0: "counted ?env0" using assms(2) by (simp add: counted_def)
  have "exit_env ex = Some (envOut r)"
    using assms(1) run by (cases ex) (auto simp: commitTransactions_def Let_def)
  from commitLoop_counted[OF run c0 this] show ?thesis .
qed

lemma reachable_counted: "reachable D env \<Longrightarrow> counted env"
proof (induction rule: reachable.induct)
  case (made stateAt stateAtBlock recent sg hdr cb env)
  then show ?case by (auto simp: makeEnv_def counted_def split: sum.splits)
next
  case (uncle env hashOf u)
  then show ?case by (auto simp: commitUncle_def counted_def Let_def)
next
  case (committed env running it interrupt r)
  from committed.hyps(2) committed.IH show ?case by (rule commitTransactions_counted)
next
  case (copied env)
  then show ?case by (simp add: copy_def counted_def)
qed

subsection \<open>Runs of the small chain\<close>

lemmas ex_defs = exDeps_def exApply_def exEnv_def exTx_def exHeader_def exCell_def exTxs_def exAfter_def

lemma exLen_decreases:
  "\<forall>it t. Peek exDeps it = Some t \<longrightarrow> exLen (Shift exDeps it) < exLen it \<and> exLen (Pop exDeps it) < exLen it"
  by (auto simp: exDeps_def exLen_def split: list.splits)

lemma exApply_keeps_pool:
  "\<forall>cb g s h t. fst (snd (ApplyTransaction exDeps cb (Some g) s h t)) \<noteq> None"
  by (simp add: exDeps_def exApply_def)

lemma ex_run_resubmit:
  "commitTransactions exDeps True exEnv exTxs (Some (exCell 2 2)) =
     Some (Returned \<lparr>returned = False, adjusts = [\<lparr>ratio = Fin (21 / 50), inc = True\<rparr>],
                    pendingLogs = None, envOut = exAfter, txsOut = [[exTx 7]]\<rparr>)"
  by (simp add: commitTransactions_def commitLoop.simps loopBody_def interrupted_def executeTx_def
        commitTransaction_def fillRatio_def f64_of_uint64_def Let_def ex_defs
        commitInterruptNone_def commitInterruptNewHead_def commitInterruptResubmit_def)

lemma ex_run_new_head:
  "commitTransactions exDeps True exEnv exTxs (Some (exCell 2 1)) =
     Some (Returned \<lparr>returned = True, adjusts = [],
                    pendingLogs = None, envOut = exAfter, txsOut = [[exTx 7]]\<rparr>)"
  by (simp add: commitTransactions_def commitLoop.simps loopBody_def interrupted_def executeTx_def
        commitTransaction_def fillRatio_def f64_of_uint64_def Let_def ex_defs
        commitInterruptNone_def commitInterruptNewHead_def commitInterruptResubmit_def)

lemma ex_reachable: "reachable exDeps (copy exDeps exAfter)"
proof -
  have "makeEnv exDeps (Inr (6, [])) (Inl (ErrorNew ''pruned'')) [(7, [60]), (6, []), (5, [])] 0 exHeader 1 =
          Inr exEnv"
    by (auto simp: makeEnv_def exDeps_def exEnv_def)
  then have "reachable exDeps exEnv" by (rule reachable.made)
  from reachable.committed[OF this ex_run_resubmit] have "reachable exDeps exAfter" by simp
  then show ?thesis by (rule reachable.copied)
qed

subsection \<open>Lemmas on the resubmit interval\<close>







subsection \<open>Lemmas on the snapshot store\<close>

lemma copyReceipts_props:
  assumes "copyReceipts ls h = (rs, h')" "\<forall>l \<in> set ls. l < receiptNext h"
  shows "length rs = length ls \<and>
         map (receiptObjs h') rs = map (receiptObjs h) ls \<and>
         (\<forall>a \<in> set rs. receiptNext h \<le> a \<and> a < receiptNext h') \<and>
         receiptNext h \<le> receiptNext h' \<and>
         (\<forall>x < receiptNext h. receiptObjs h' x = receiptObjs h x) \<and>
         stateObjs h' = stateObjs h \<and> stateNext h' = stateNext h \<and> logObjs h' = logObjs h"
  using assms
proof (induction ls arbitrary: h rs h')
  case Nil
  then show ?case by simp
next
  case (Cons l ls)
  let ?a = "receiptNext h"
  let ?h1 = "h\<lparr>receiptObjs := (receiptObjs h)(?a := receiptObjs h l), receiptNext := Suc ?a\<rparr>"
  obtain as h2 where r: "copyReceipts ls ?h1 = (as, h2)" by (cases "copyReceipts ls ?h1") auto
  with Cons.prems(1) have eq: "rs = ?a # as" "h' = h2" by (simp_all add: Let_def)
  have pre: "\<forall>l \<in> set ls. l < receiptNext ?h1" using Cons.prems(2) by auto
  note IH = Cons.IH[OF r pre]
  have l: "l < ?a" using Cons.prems(2) by simp
  from IH have keep: "\<forall>x < Suc ?a. receiptObjs h2 x = receiptObjs ?h1 x" by simp
  have "receiptObjs h' ?a = receiptObjs h l" using keep eq by simp
  moreover have "map (receiptObjs h') as = map (receiptObjs h) ls"
  proof -
    have "map (receiptObjs ?h1) ls = map (receiptObjs h) ls" using Cons.prems(2) by auto
    with IH eq show ?thesis by simp
  qed
  moreover have "\<forall>x < ?a. receiptObjs h' x = receiptObjs h x" using keep eq by auto
  ultimately show ?case using IH eq by auto
qed


lemma deepCopyD:
  assumes "deepCopy cp" "a < stateNext h" "cp a h = (b, h')"
  shows "stateNext h \<le> b" "b < stateNext h'" "stateObjs h' b = stateObjs h a"
    "\<And>x. x < stateNext h \<Longrightarrow> stateObjs h' x = stateObjs h x"
    "receiptObjs h' = receiptObjs h" "receiptNext h' = receiptNext h" "logObjs h' = logObjs h"
proof -
  from assms(1) have "a < stateNext h \<longrightarrow>
        (case cp a h of
           (b, h') \<Rightarrow>
             stateNext h \<le> b \<and> b < stateNext h' \<and> stateObjs h' b = stateObjs h a \<and>
             (\<forall>x < stateNext h. stateObjs h' x = stateObjs h x) \<and>
             receiptObjs h' = receiptObjs h \<and> receiptNext h' = receiptNext h \<and>
             logObjs h' = logObjs h)"
    unfolding deepCopy_def by (elim allE)
  with assms(2,3) have all:
    "stateNext h \<le> b \<and> b < stateNext h' \<and> stateObjs h' b = stateObjs h a \<and>
     (\<forall>x < stateNext h. stateObjs h' x = stateObjs h x) \<and>
     receiptObjs h' = receiptObjs h \<and> receiptNext h' = receiptNext h \<and> logObjs h' = logObjs h"
    by simp
  from all show "stateNext h \<le> b" "b < stateNext h'" "stateObjs h' b = stateObjs h a"
    "receiptObjs h' = receiptObjs h" "receiptNext h' = receiptNext h" "logObjs h' = logObjs h"
    by simp_all
  from all show "\<And>x. x < stateNext h \<Longrightarrow> stateObjs h' x = stateObjs h x" by simp
qed

lemma exCopy_deepCopy: "deepCopy exCopy"
  by (simp add: deepCopy_def exCopy_def)

text \<open>
  What \<^verbatim>\<open>updateSnapshot\<close> and \<^verbatim>\<open>pending\<close> copy, when \<^verbatim>\<open>StateDB.Copy\<close> is a deep
  copy and the state and the receipts of the environment are allocated. The snapshot
  holds a state object other than the environment's, with the same value; receipt
  structs other than the environment's, equal to them field by field, the pointers to
  the log entries included; and the block built from the header, transactions, uncles
  and receipts of the environment. No log entry is copied. \<^verbatim>\<open>pending\<close> returns that
  block and a state object \<open>p\<close> that is neither the snapshot's nor the
  environment's. Whatever is then written to the environment's state object, or to
  \<open>p\<close>, the snapshot state keeps its value and a later \<^verbatim>\<open>pending\<close> returns the same
  block and a state of the value the snapshot was taken with.
\<close>

lemma snapshot_state_independent:
  assumes dc: "deepCopy cp"
    and st: "state env < stateNext h"
    and rc: "\<forall>l \<in> set (receipts env). l < receiptNext h"
    and up: "updateSnapshot cp w env h = (wS, hS)"
    and pe: "pending cp wS hS = ((b, sp), hP)"
  shows "\<exists>s rs p.
     snapshotState wS = Some s \<and> snapshotReceipts wS = Some rs \<and>
     snapshotBlock wS =
       Some \<lparr>blockHeader = header env, blockTxs = txs env, blockUncles = unclelist env,
             blockReceipts = map (receiptAt h) (receipts env)\<rparr> \<and>
     s \<noteq> state env \<and> stateObjs hS s = stateObjs h (state env) \<and>
     length rs = length (receipts env) \<and> set rs \<inter> set (receipts env) = {} \<and>
     map (receiptObjs hS) rs = map (receiptObjs h) (receipts env) \<and> logObjs hS = logObjs h \<and>
     b = snapshotBlock wS \<and> sp = Some p \<and> p \<noteq> s \<and> p \<noteq> state env \<and>
     stateObjs hP p = stateObjs h (state env) \<and>
     (\<forall>v. stateObjs (hS\<lparr>stateObjs := (stateObjs hS)(state env := v)\<rparr>) s = stateObjs h (state env)) \<and>
     (\<forall>v. stateObjs (hP\<lparr>stateObjs := (stateObjs hP)(p := v)\<rparr>) s = stateObjs h (state env) \<and>
          map (receiptObjs (hP\<lparr>stateObjs := (stateObjs hP)(p := v)\<rparr>)) rs =
            map (receiptObjs h) (receipts env) \<and>
          (\<exists>p' hQ. pending cp wS (hP\<lparr>stateObjs := (stateObjs hP)(p := v)\<rparr>) =
                      ((snapshotBlock wS, Some p'), hQ) \<and>
                   stateObjs hQ p' = stateObjs h (state env)))"
proof -
  obtain rs ha where cr: "copyReceipts (receipts env) h = (rs, ha)"
    by (cases "copyReceipts (receipts env) h") auto
  obtain s hb where c1: "cp (state env) ha = (s, hb)" by (cases "cp (state env) ha") auto
  from up cr c1 have wS_eq:
    "wS = w\<lparr>snapshotBlock := Some \<lparr>blockHeader = header env, blockTxs = txs env,
              blockUncles = unclelist env, blockReceipts = map (receiptAt h) (receipts env)\<rparr>,
            snapshotReceipts := Some rs, snapshotState := Some s\<rparr>"
    and hS_eq: "hS = hb"
    by (simp_all add: updateSnapshot_def Let_def)
  note R = copyReceipts_props[OF cr rc]
  from R st have st': "state env < stateNext ha" by simp
  note A = deepCopyD[OF dc st' c1]
  have s_new: "stateNext h \<le> s" using A(1) R by simp
  have s_val: "stateObjs hS s = stateObjs h (state env)" using A(3) R hS_eq by simp
  have rs_val: "map (receiptObjs hS) rs = map (receiptObjs h) (receipts env)" using A(5) R hS_eq by simp
  have lg: "logObjs hS = logObjs h" using A(7) R hS_eq by simp
  have rs_new: "set rs \<inter> set (receipts env) = {}"
  proof -
    have "\<forall>a \<in> set rs. receiptNext h \<le> a" using R by simp
    with rc show ?thesis by fastforce
  qed
  obtain p hc where c2: "cp s hS = (p, hc)" by (cases "cp s hS") auto
  from pe c2 wS_eq have pe': "b = snapshotBlock wS" "sp = Some p" "hP = hc"
    by (simp_all add: pending_def)
  have s_in: "s < stateNext hS" using A(2) hS_eq by simp
  note B = deepCopyD[OF dc s_in c2]
  have p_new: "stateNext hS \<le> p" using B(1) .
  have p_val: "stateObjs hP p = stateObjs h (state env)" using B(3) s_val pe' by simp
  have ps: "p \<noteq> s" using p_new s_in by simp
  have pe_ne: "p \<noteq> state env" using p_new s_in s_new st by simp
  have se: "s \<noteq> state env" using s_new st by simp
  have s_h2: "stateObjs hP s = stateObjs h (state env)" using B(4)[OF s_in] s_val pe' by simp
  have s_in2: "s < stateNext hP" using s_in p_new B(2) pe' by simp
  have later: "stateObjs (hP\<lparr>stateObjs := (stateObjs hP)(p := v)\<rparr>) s = stateObjs h (state env) \<and>
          map (receiptObjs (hP\<lparr>stateObjs := (stateObjs hP)(p := v)\<rparr>)) rs =
            map (receiptObjs h) (receipts env) \<and>
          (\<exists>p' hQ. pending cp wS (hP\<lparr>stateObjs := (stateObjs hP)(p := v)\<rparr>) =
                      ((snapshotBlock wS, Some p'), hQ) \<and>
                   stateObjs hQ p' = stateObjs h (state env))" for v
  proof -
    let ?h3 = "hP\<lparr>stateObjs := (stateObjs hP)(p := v)\<rparr>"
    have a: "stateObjs ?h3 s = stateObjs h (state env)" using s_h2 ps by simp
    have r: "map (receiptObjs ?h3) rs = map (receiptObjs h) (receipts env)"
      using rs_val B(5) pe' by simp
    obtain p' hQ where c3: "cp s ?h3 = (p', hQ)" by (cases "cp s ?h3") auto
    have "s < stateNext ?h3" using s_in2 by simp
    from deepCopyD(3)[OF dc this c3] a have "stateObjs hQ p' = stateObjs h (state env)" by simp
    moreover have "pending cp wS ?h3 = ((snapshotBlock wS, Some p'), hQ)"
      using c3 wS_eq by (simp add: pending_def)
    ultimately show ?thesis using a r by blast
  qed
  have env_later: "stateObjs (hS\<lparr>stateObjs := (stateObjs hS)(state env := v)\<rparr>) s = stateObjs h (state env)" for v
    using s_val se by simp
  show ?thesis
    apply (rule exI[of _ s], rule exI[of _ rs], rule exI[of _ p])
    using wS_eq se s_val R rs_new rs_val lg pe' ps pe_ne p_val env_later later
    by simp
qed

lemma snapshot_state_independent_example:
  "snapshotState (fst (updateSnapshot exCopy (fst (newWorker 0)) exPtrEnv exStore)) = Some 1 \<and>
   snapshotReceipts (fst (updateSnapshot exCopy (fst (newWorker 0)) exPtrEnv exStore)) = Some [1] \<and>
   fst (pending exCopy (fst (updateSnapshot exCopy (fst (newWorker 0)) exPtrEnv exStore))
         (snd (updateSnapshot exCopy (fst (newWorker 0)) exPtrEnv exStore))) =
     (Some \<lparr>blockHeader = exHeader, blockTxs = [exTx 6], blockUncles = [],
            blockReceipts = [\<lparr>rTxHash = 106, Logs = [106]\<rparr>]\<rparr>, Some 2) \<and>
   stateObjs ((snd (pending exCopy (fst (updateSnapshot exCopy (fst (newWorker 0)) exPtrEnv exStore))
         (snd (updateSnapshot exCopy (fst (newWorker 0)) exPtrEnv exStore))))
       \<lparr>stateObjs := (stateObjs (snd (pending exCopy (fst (updateSnapshot exCopy (fst (newWorker 0)) exPtrEnv exStore))
         (snd (updateSnapshot exCopy (fst (newWorker 0)) exPtrEnv exStore)))))(2 := 99)\<rparr>) 1 = 6"
  using snapshot_state_independent[where cp = exCopy and env = exPtrEnv and h = exStore and w = "fst (newWorker 0)"
      and wS = "fst (updateSnapshot exCopy (fst (newWorker 0)) exPtrEnv exStore)"
      and hS = "snd (updateSnapshot exCopy (fst (newWorker 0)) exPtrEnv exStore)"
      and b = "Some \<lparr>blockHeader = exHeader, blockTxs = [exTx 6], blockUncles = [],
            blockReceipts = [\<lparr>rTxHash = 106, Logs = [106]\<rparr>]\<rparr>"
      and sp = "Some 2"
      and hP = "snd (pending exCopy (fst (updateSnapshot exCopy (fst (newWorker 0)) exPtrEnv exStore))
         (snd (updateSnapshot exCopy (fst (newWorker 0)) exPtrEnv exStore)))"]
    exCopy_deepCopy
  by (simp add: updateSnapshot_def pending_def exCopy_def exPtrEnv_def exStore_def newWorker_def
        unclelist_def receiptAt_def Let_def)

subsection \<open>The claims\<close>

text \<open>
  C1. At the top of an iteration \<open>k\<close> of the loop of \<^verbatim>\<open>commitTransactions\<close>: when the
  interrupt cell holds the new-head signal, the loop returns \<open>True\<close> and nothing has
  been sent; when it holds the resubmit signal, the loop returns \<open>False\<close> and exactly one
  feedback has been sent, with \<open>inc\<close> set and the ratio \<open>fillRatio\<close> of the gas limit and
  the gas left, which is \<open>(gasLimit - gas) / gasLimit\<close> raised to \<open>1/10\<close> when the pool
  does not exceed a non-zero limit; when the interrupt does not fire and the gas pool
  is below \<open>TxGas\<close> or the iterator is exhausted, the loop breaks. For a whole call that
  returns with a non-nil interrupt there is an iteration \<open>j\<close>, with the cell at zero
  before it, at which it ended: with the new-head signal it returned \<open>True\<close> and sent
  nothing; with the resubmit signal it returned \<open>False\<close> and sent exactly the one
  feedback \<open>inc = True\<close>; with no signal it broke out of the loop, returned \<open>False\<close> and
  sent exactly the one feedback \<open>inc = False\<close>. With a nil interrupt nothing is sent.
  The call returns whenever \<open>Shift\<close> and \<open>Pop\<close> make the iterator smaller, and it
  does not panic on a \<^verbatim>\<open>nil\<close> gas pool when \<^verbatim>\<open>ApplyTransaction\<close> leaves the pointer
  to the pool in place.
\<close>

theorem commitTransactions_feedback:
  "(c k = commitInterruptNewHead \<longrightarrow>
      commitLoop D (Some c) gasLimit k env it ls = Some (Interrupted True [] env it)) \<and>
   (c k = commitInterruptResubmit \<and> gasPool env = Some gas \<longrightarrow>
      commitLoop D (Some c) gasLimit k env it ls =
        Some (Interrupted False [\<lparr>ratio = fillRatio gasLimit gas, inc = True\<rparr>] env it)) \<and>
   (gas \<le> gasLimit \<and> gasLimit \<noteq> 0 \<longrightarrow>
      fillRatio gasLimit gas =
        Fin (max (1 / 10) (of_nat (unat gasLimit - unat gas) / of_nat (unat gasLimit)))) \<and>
   (interrupted interrupt k gasLimit env it = None \<and> gasPool env = Some gas \<and>
    (gas < TxGas D \<or> Peek D it = None) \<longrightarrow>
      commitLoop D interrupt gasLimit k env it ls = Some (Broke env it ls)) \<and>
   (commitTransactions D running env it (Some c) = Some (Returned r) \<longrightarrow>
      (\<exists>j. (\<forall>i<j. c i = commitInterruptNone) \<and>
         (if c j = commitInterruptNewHead then returned r \<and> adjusts r = []
          else if c j = commitInterruptResubmit then
            \<not> returned r \<and>
            (\<exists>g. gasPool (envOut r) = Some g \<and>
                 adjusts r = [\<lparr>ratio = fillRatio (GasLimit (header env)) g, inc = True\<rparr>])
          else if c j = commitInterruptNone then
            \<not> returned r \<and> adjusts r = [\<lparr>ratio = Fin 0, inc = False\<rparr>] \<and>
            (\<exists>g. gasPool (envOut r) = Some g \<and> (g < TxGas D \<or> Peek D (txsOut r) = None))
          else \<not> returned r \<and> adjusts r = []))) \<and>
   (commitTransactions D running env it None = Some (Returned r) \<longrightarrow>
      \<not> returned r \<and> adjusts r = []) \<and>
   ((\<forall>it t. Peek D it = Some t \<longrightarrow> m (Shift D it) < m it \<and> m (Pop D it) < (m it :: nat)) \<longrightarrow>
      commitTransactions D running env it interrupt \<noteq> None) \<and>
   ((\<forall>cb g s h t. fst (snd (ApplyTransaction D cb (Some g) s h t)) \<noteq> None) \<longrightarrow>
      commitTransactions D running env it interrupt \<noteq> Some Panic)"
proof (intro conjI impI)
  assume "c k = commitInterruptNewHead"
  then show "commitLoop D (Some c) gasLimit k env it ls = Some (Interrupted True [] env it)"
    by (rule commitLoop_new_head)
next
  assume "c k = commitInterruptResubmit \<and> gasPool env = Some gas"
  then show "commitLoop D (Some c) gasLimit k env it ls =
        Some (Interrupted False [\<lparr>ratio = fillRatio gasLimit gas, inc = True\<rparr>] env it)"
    by (simp add: commitLoop_resubmit)
next
  assume "gas \<le> gasLimit \<and> gasLimit \<noteq> 0"
  then show "fillRatio gasLimit gas =
        Fin (max (1 / 10) (of_nat (unat gasLimit - unat gas) / of_nat (unat gasLimit)))"
    by (elim conjE) (rule fillRatio_value)
next
  assume "interrupted interrupt k gasLimit env it = None \<and> gasPool env = Some gas \<and>
    (gas < TxGas D \<or> Peek D it = None)"
  then show "commitLoop D interrupt gasLimit k env it ls = Some (Broke env it ls)"
    by (elim conjE) (rule commitLoop_break, assumption+)
next
  assume "commitTransactions D running env it (Some c) = Some (Returned r)"
  then show "\<exists>j. (\<forall>i<j. c i = commitInterruptNone) \<and>
         (if c j = commitInterruptNewHead then returned r \<and> adjusts r = []
          else if c j = commitInterruptResubmit then
            \<not> returned r \<and>
            (\<exists>g. gasPool (envOut r) = Some g \<and>
                 adjusts r = [\<lparr>ratio = fillRatio (GasLimit (header env)) g, inc = True\<rparr>])
          else if c j = commitInterruptNone then
            \<not> returned r \<and> adjusts r = [\<lparr>ratio = Fin 0, inc = False\<rparr>] \<and>
            (\<exists>g. gasPool (envOut r) = Some g \<and> (g < TxGas D \<or> Peek D (txsOut r) = None))
          else \<not> returned r \<and> adjusts r = [])"
    by (rule commitTransactions_signal)
next
  assume "commitTransactions D running env it None = Some (Returned r)"
  then show "\<not> returned r" "adjusts r = []"
    by (simp_all add: commitTransactions_nil_interrupt)
next
  assume "\<forall>it t. Peek D it = Some t \<longrightarrow> m (Shift D it) < m it \<and> m (Pop D it) < m it"
  then show "commitTransactions D running env it interrupt \<noteq> None"
    by (intro commitTransactions_returns[where m = m]) simp
next
  assume "\<forall>cb g s h t. fst (snd (ApplyTransaction D cb (Some g) s h t)) \<noteq> None"
  then show "commitTransactions D running env it interrupt \<noteq> Some Panic"
    by (rule commitTransactions_no_panic)
qed

theorem commitTransactions_feedback_witness:
  "commitLoop exDeps (Some (exCell 2 1)) 50000 2 exAfter [[exTx 7]] [106] =
     Some (Interrupted True [] exAfter [[exTx 7]]) \<and>
   commitLoop exDeps (Some (exCell 2 2)) 50000 2 exAfter [[exTx 7]] [106] =
     Some (Interrupted False [\<lparr>ratio = Fin (21 / 50), inc = True\<rparr>] exAfter [[exTx 7]]) \<and>
   fillRatio 50000 29000 = Fin (21 / 50) \<and>
   commitLoop exDeps (Some (exCell 2 1)) 50000 1 exAfter [] [106] = Some (Broke exAfter [] [106]) \<and>
   exCell 2 2 0 = commitInterruptNone \<and> exCell 2 2 1 = commitInterruptNone \<and>
   exCell 2 2 2 = commitInterruptResubmit \<and>
   commitTransactions exDeps True exEnv exTxs (Some (exCell 2 2)) \<noteq> None \<and>
   commitTransactions exDeps True exEnv exTxs (Some (exCell 2 2)) \<noteq> Some Panic"
  using
    commitTransactions_feedback[where D = exDeps and c = "exCell 2 1" and k = 2 and gasLimit = 50000
      and env = exAfter and it = "[[exTx 7]]" and ls = "[106]" and gas = 29000
      and interrupt = "Some (exCell 2 2)" and running = True and m = exLen]
    commitTransactions_feedback[where D = exDeps and c = "exCell 2 2" and k = 2 and gasLimit = 50000
      and env = exAfter and it = "[[exTx 7]]" and ls = "[106]" and gas = 29000
      and interrupt = "Some (exCell 2 2)" and running = True and m = exLen]
    commitTransactions_feedback[where D = exDeps and c = "exCell 2 1" and k = 1 and gasLimit = 50000
      and env = exAfter and it = "[]" and ls = "[106]" and gas = 29000
      and interrupt = "Some (exCell 2 1)" and running = True and m = exLen]
    commitTransactions_feedback[where D = exDeps and c = "exCell 2 2" and k = 1 and gasLimit = 50000
      and env = exEnv and it = exTxs and ls = "[]" and gas = 29000
      and interrupt = "Some (exCell 2 2)" and running = True and m = exLen]
    exLen_decreases exApply_keeps_pool
  by (simp add: exCell_def exAfter_def exEnv_def exDeps_def interrupted_def
        commitInterruptNone_def commitInterruptNewHead_def commitInterruptResubmit_def)

text \<open>
  C2. Every environment made by \<^verbatim>\<open>makeEnv\<close> and then changed by \<^verbatim>\<open>commitUncle\<close>,
  \<^verbatim>\<open>commitTransactions\<close> and \<^verbatim>\<open>copy\<close> in any order has as many transactions and as
  many receipts as \<open>tcount\<close> says. \<^verbatim>\<open>commitTransaction\<close> appends a transaction
  together with its receipt exactly when it returns no error and leaves \<open>tcount\<close> alone;
  the loop, its only caller, adds one to \<open>tcount\<close> exactly then.
\<close>

theorem environment_counted:
  "(reachable D env \<longrightarrow> length (txs env) = tcount env \<and> length (receipts env) = tcount env) \<and>
   (commitTransaction D envA (Some t) = ((logs, err), envB) \<longrightarrow>
      tcount envB = tcount envA \<and>
      (if err = None
       then txs envB = txs envA @ [t] \<and> (\<exists>rc. receipts envB = receipts envA @ [rc])
       else txs envB = txs envA \<and> receipts envB = receipts envA)) \<and>
   (commitTransaction D (env\<lparr>state := Prepare D (txHash t) (tcount env) (state env)\<rparr>) (Some t) =
      ((logs, err), envB) \<longrightarrow>
      tcount (fst (executeTx D env it ls t)) = (if err = None then Suc (tcount env) else tcount env) \<and>
      length (txs (fst (executeTx D env it ls t))) =
        (if err = None then Suc (length (txs env)) else length (txs env)) \<and>
      length (receipts (fst (executeTx D env it ls t))) =
        (if err = None then Suc (length (receipts env)) else length (receipts env)))"
proof (intro conjI impI)
  assume "reachable D env"
  then have "counted env" by (rule reachable_counted)
  then show "length (txs env) = tcount env" "length (receipts env) = tcount env"
    by (simp_all add: counted_def)
next
  assume c: "commitTransaction D envA (Some t) = ((logs, err), envB)"
  then show "tcount envB = tcount envA"
    by (rule commitTransaction_lengths)
  from c show "if err = None
       then txs envB = txs envA @ [t] \<and> (\<exists>rc. receipts envB = receipts envA @ [rc])
       else txs envB = txs envA \<and> receipts envB = receipts envA"
    by (auto simp: commitTransaction_def Let_def split: prod.splits sum.splits)
next
  assume c: "commitTransaction D (env\<lparr>state := Prepare D (txHash t) (tcount env) (state env)\<rparr>) (Some t) =
      ((logs, err), envB)"
  note L = commitTransaction_lengths[OF c]
  have e: "fst (executeTx D env it ls t) = (if err = None then envB\<lparr>tcount := tcount envB + 1\<rparr> else envB)"
    using c by (cases err) (simp_all add: executeTx_def Let_def)
  show "tcount (fst (executeTx D env it ls t)) = (if err = None then Suc (tcount env) else tcount env)"
    using e L(1) by simp
  show "length (txs (fst (executeTx D env it ls t))) =
        (if err = None then Suc (length (txs env)) else length (txs env))"
    using e L(2,3) by (cases err) simp_all
  show "length (receipts (fst (executeTx D env it ls t))) =
        (if err = None then Suc (length (receipts env)) else length (receipts env))"
    using e L(2,3) by (cases err) simp_all
qed

theorem environment_counted_witness:
  "length (txs (copy exDeps exAfter)) = 1 \<and> length (receipts (copy exDeps exAfter)) = 1 \<and>
   tcount (copy exDeps exAfter) = 1 \<and>
   tcount (fst (executeTx exDeps (exEnv\<lparr>gasPool := Some 50000\<rparr>) exTxs [] (exTx 6))) = 1 \<and>
   txs (fst (executeTx exDeps (exEnv\<lparr>gasPool := Some 50000\<rparr>) exTxs [] (exTx 6))) = [exTx 6] \<and>
   tcount (fst (executeTx exDeps (exEnv\<lparr>gasPool := Some 50000\<rparr>) exTxs [] (exTx 5))) = 0 \<and>
   txs (fst (executeTx exDeps (exEnv\<lparr>gasPool := Some 50000\<rparr>) exTxs [] (exTx 5))) = []"
  using
    environment_counted[where D = exDeps and env = "copy exDeps exAfter"
      and envA = "exEnv\<lparr>gasPool := Some 50000\<rparr>" and t = "exTx 6" and logs = "[106]" and err = None
      and envB = "exAfter\<lparr>tcount := 0\<rparr>" and it = exTxs and ls = "[]"]
    environment_counted[where D = exDeps and env = "exEnv\<lparr>gasPool := Some 50000\<rparr>"
      and envA = "exEnv\<lparr>gasPool := Some 50000\<rparr>" and t = "exTx 6" and logs = "[106]" and err = None
      and envB = "exAfter\<lparr>tcount := 0\<rparr>" and it = exTxs and ls = "[]"]
    environment_counted[where D = exDeps and env = "exEnv\<lparr>gasPool := Some 50000\<rparr>"
      and envA = "exEnv\<lparr>gasPool := Some 50000\<rparr>" and t = "exTx 5" and logs = "[]"
      and err = "Some (Wrap ''nonce too low'' ErrNonceTooLow)"
      and envB = "exEnv\<lparr>gasPool := Some 50000\<rparr>" and it = exTxs and ls = "[]"]
    ex_reachable
  by (simp add: copy_def exAfter_def exEnv_def exTx_def exDeps_def exApply_def exHeader_def
       commitTransaction_def executeTx_def Let_def)

text \<open>
  C3. \<^verbatim>\<open>commitUncle\<close> returns an error exactly in four cases, tested in this order:
  the uncle's hash is a key of \<open>uncles\<close> ("uncle not unique"); the uncle has the parent
  of the header under construction ("uncle is sibling"); the uncle's parent is not an
  ancestor ("uncle's parent unknown"); the uncle's hash is in \<open>family\<close> ("uncle already
  included"). With an error the environment, and so \<open>uncles\<close>, is unchanged; otherwise
  \<^verbatim>\<open>nil\<close> is returned and \<open>uncles\<close> maps the uncle's hash to the uncle and is
  otherwise as before.
\<close>

theorem commitUncle_cases:
  "(fst (commitUncle hashOf env uncle) \<noteq> None) =
     (hashOf uncle \<in> dom (map_of (uncles env)) \<or> ParentHash (header env) = ParentHash uncle \<or>
      ParentHash uncle \<notin> ancestors env \<or> hashOf uncle \<in> family env) \<and>
   (hashOf uncle \<in> dom (map_of (uncles env)) \<longrightarrow>
      commitUncle hashOf env uncle = (Some (ErrorNew ''uncle not unique''), env)) \<and>
   (hashOf uncle \<notin> dom (map_of (uncles env)) \<and> ParentHash (header env) = ParentHash uncle \<longrightarrow>
      commitUncle hashOf env uncle = (Some (ErrorNew ''uncle is sibling''), env)) \<and>
   (hashOf uncle \<notin> dom (map_of (uncles env)) \<and> ParentHash (header env) \<noteq> ParentHash uncle \<and>
    ParentHash uncle \<notin> ancestors env \<longrightarrow>
      commitUncle hashOf env uncle = (Some (ErrorNew ''uncle's parent unknown''), env)) \<and>
   (hashOf uncle \<notin> dom (map_of (uncles env)) \<and> ParentHash (header env) \<noteq> ParentHash uncle \<and>
    ParentHash uncle \<in> ancestors env \<and> hashOf uncle \<in> family env \<longrightarrow>
      commitUncle hashOf env uncle = (Some (ErrorNew ''uncle already included''), env)) \<and>
   (fst (commitUncle hashOf env uncle) \<noteq> None \<longrightarrow>
      uncles (snd (commitUncle hashOf env uncle)) = uncles env) \<and>
   (hashOf uncle \<notin> dom (map_of (uncles env)) \<and> ParentHash (header env) \<noteq> ParentHash uncle \<and>
    ParentHash uncle \<in> ancestors env \<and> hashOf uncle \<notin> family env \<longrightarrow>
      fst (commitUncle hashOf env uncle) = None \<and>
      map_of (uncles (snd (commitUncle hashOf env uncle))) = (map_of (uncles env))(hashOf uncle \<mapsto> uncle) \<and>
      snd (commitUncle hashOf env uncle) = env\<lparr>uncles := uncles env @ [(hashOf uncle, uncle)]\<rparr>)"
  by (auto simp: commitUncle_def Let_def domIff map_add_def fun_eq_iff split: option.splits)

theorem commitUncle_cases_witness:
  "commitUncle exHash exEnv exUncle = (None, exEnv\<lparr>uncles := [(1063, exUncle)]\<rparr>) \<and>
   commitUncle exHash (exEnv\<lparr>uncles := [(1063, exUncle)]\<rparr>) exUncle =
     (Some (ErrorNew ''uncle not unique''), exEnv\<lparr>uncles := [(1063, exUncle)]\<rparr>) \<and>
   commitUncle exHash exEnv (exUncle\<lparr>ParentHash := 7\<rparr>) = (Some (ErrorNew ''uncle is sibling''), exEnv) \<and>
   commitUncle exHash exEnv (exUncle\<lparr>ParentHash := 4\<rparr>) = (Some (ErrorNew ''uncle's parent unknown''), exEnv) \<and>
   commitUncle exHash (exEnv\<lparr>family := {1063}\<rparr>) exUncle =
     (Some (ErrorNew ''uncle already included''), exEnv\<lparr>family := {1063}\<rparr>)"
  using commitUncle_cases[of exHash exEnv exUncle]
    commitUncle_cases[of exHash "exEnv\<lparr>uncles := [(1063, exUncle)]\<rparr>" exUncle]
    commitUncle_cases[of exHash exEnv "exUncle\<lparr>ParentHash := 7\<rparr>"]
    commitUncle_cases[of exHash exEnv "exUncle\<lparr>ParentHash := 4\<rparr>"]
    commitUncle_cases[of exHash "exEnv\<lparr>family := {1063}\<rparr>" exUncle]
  by (simp add: commitUncle_def Let_def exHash_def exEnv_def exUncle_def exHeader_def)

text \<open>
  C4. What the loop does to the iterator after executing a transaction, by the error
  \<open>err\<close> of \<^verbatim>\<open>commitTransaction\<close>, in the order of the \<^verbatim>\<open>switch\<close>: gas limit reached,
  \<open>Pop\<close>; nonce too low, \<open>Shift\<close>; nonce too high, \<open>Pop\<close>; no error, \<open>Shift\<close>, with
  the logs of the receipt collected and \<open>tcount\<close> incremented; transaction type not
  supported, \<open>Pop\<close>; any other error, \<open>Shift\<close>. \<open>tcount\<close> changes exactly when there
  is no error.
\<close>

theorem executeTx_iterator:
  assumes "commitTransaction D (env\<lparr>state := Prepare D (txHash t) (tcount env) (state env)\<rparr>) (Some t) =
             ((logs, err), envB)"
  shows "(errors_Is err (Some ErrGasLimitReached) \<longrightarrow> executeTx D env it ls t = (envB, Pop D it, ls)) \<and>
         (\<not> errors_Is err (Some ErrGasLimitReached) \<and> errors_Is err (Some ErrNonceTooLow) \<longrightarrow>
            executeTx D env it ls t = (envB, Shift D it, ls)) \<and>
         (\<not> errors_Is err (Some ErrGasLimitReached) \<and> \<not> errors_Is err (Some ErrNonceTooLow) \<and>
          errors_Is err (Some ErrNonceTooHigh) \<longrightarrow>
            executeTx D env it ls t = (envB, Pop D it, ls)) \<and>
         (err = None \<longrightarrow>
            executeTx D env it ls t = (envB\<lparr>tcount := Suc (tcount env)\<rparr>, Shift D it, ls @ logs)) \<and>
         (err \<noteq> None \<and> \<not> errors_Is err (Some ErrGasLimitReached) \<and> \<not> errors_Is err (Some ErrNonceTooLow) \<and>
          \<not> errors_Is err (Some ErrNonceTooHigh) \<and> errors_Is err (Some ErrTxTypeNotSupported) \<longrightarrow>
            executeTx D env it ls t = (envB, Pop D it, ls)) \<and>
         (err \<noteq> None \<and> \<not> errors_Is err (Some ErrGasLimitReached) \<and> \<not> errors_Is err (Some ErrNonceTooLow) \<and>
          \<not> errors_Is err (Some ErrNonceTooHigh) \<and> \<not> errors_Is err (Some ErrTxTypeNotSupported) \<longrightarrow>
            executeTx D env it ls t = (envB, Shift D it, ls)) \<and>
         (err = Some ErrGasLimitReached \<or> err = Some ErrNonceTooHigh \<or> err = Some ErrTxTypeNotSupported \<longrightarrow>
            executeTx D env it ls t = (envB, Pop D it, ls)) \<and>
         (err = Some ErrNonceTooLow \<longrightarrow> executeTx D env it ls t = (envB, Shift D it, ls)) \<and>
         (tcount (fst (executeTx D env it ls t)) \<noteq> tcount env) = (err = None)"
proof -
  have tc: "tcount envB = tcount env"
    using commitTransaction_lengths(1)[OF assms] by simp
  show ?thesis
  proof (cases err)
    case None
    then show ?thesis using assms tc by (simp add: executeTx_def Let_def)
  next
    case (Some e)
    then show ?thesis using assms tc by (auto simp: executeTx_def Let_def)
  qed
qed

theorem executeTx_iterator_witness:
  "executeTx exDeps (exEnv\<lparr>gasPool := Some 50000\<rparr>) exTxs [] (exTx 5) =
     (exEnv\<lparr>gasPool := Some 50000\<rparr>, [[exTx 6, exTx 7]], []) \<and>
   executeTx exDeps (exEnv\<lparr>gasPool := Some 50000\<rparr>) exTxs [] (exTx 6) = (exAfter, [[exTx 6, exTx 7]], [106]) \<and>
   executeTx exDeps (exEnv\<lparr>gasPool := Some 50000\<rparr>) exTxs [] (exTx 7) = (exEnv\<lparr>gasPool := Some 50000\<rparr>, [], []) \<and>
   executeTx exDeps (exEnv\<lparr>gasPool := Some 8000\<rparr>) exTxs [] (exTx 6) = (exEnv\<lparr>gasPool := Some 8000\<rparr>, [], []) \<and>
   executeTx exDeps exEnv exTxs [] (exTx 6) = (exEnv, [[exTx 6, exTx 7]], [])"
  using
    executeTx_iterator[where D = exDeps and env = "exEnv\<lparr>gasPool := Some 50000\<rparr>" and t = "exTx 5"
      and logs = "[]" and err = "Some (Wrap ''nonce too low'' ErrNonceTooLow)"
      and envB = "exEnv\<lparr>gasPool := Some 50000\<rparr>" and it = exTxs and ls = "[]"]
    executeTx_iterator[where D = exDeps and env = "exEnv\<lparr>gasPool := Some 50000\<rparr>" and t = "exTx 6"
      and logs = "[106]" and err = None and envB = "exAfter\<lparr>tcount := 0\<rparr>" and it = exTxs and ls = "[]"]
    executeTx_iterator[where D = exDeps and env = "exEnv\<lparr>gasPool := Some 50000\<rparr>" and t = "exTx 7"
      and logs = "[]" and err = "Some (Wrap ''nonce too high'' ErrNonceTooHigh)"
      and envB = "exEnv\<lparr>gasPool := Some 50000\<rparr>" and it = exTxs and ls = "[]"]
    executeTx_iterator[where D = exDeps and env = "exEnv\<lparr>gasPool := Some 8000\<rparr>" and t = "exTx 6"
      and logs = "[]" and err = "Some ErrGasLimitReached"
      and envB = "exEnv\<lparr>gasPool := Some 8000\<rparr>" and it = exTxs and ls = "[]"]
    executeTx_iterator[where D = exDeps and env = exEnv and t = "exTx 6"
      and logs = "[]" and err = "Some (ErrorNew ''no gas pool'')"
      and envB = exEnv and it = exTxs and ls = "[]"]
  by (simp add: exAfter_def exEnv_def exTx_def exTxs_def exDeps_def exApply_def exHeader_def
       commitTransaction_def executeTx_def Let_def)




text \<open>
  C6. \<^verbatim>\<open>commitTransaction\<close> on a transaction \<open>t\<close>, with \<open>snap\<close> the revision taken
  by \<^verbatim>\<open>Snapshot\<close> and \<open>s2\<close> the state as \<^verbatim>\<open>ApplyTransaction\<close> leaves it. When the
  application returns an error, that error is returned with no logs, the state of the
  environment is \<open>s2\<close> reverted to \<open>snap\<close>, and \<open>txs\<close> and \<open>receipts\<close> are unchanged.
  When it succeeds, \<^verbatim>\<open>nil\<close> is returned with the logs of the receipt, and the
  transaction and its receipt have been appended to \<open>txs\<close> and \<open>receipts\<close>. \<open>tcount\<close> is
  unchanged in both cases.
\<close>

theorem commitTransaction_atomic:
  assumes "Snapshot D (state env) = (snap, s1)"
    and "ApplyTransaction D (coinbase env) (gasPool env) s1 (header env) t = (res, gp, s2, used)"
    and "commitTransaction D env (Some t) = ((logs, err), env')"
  shows "(\<forall>e. res = Inl e \<longrightarrow>
            err = Some e \<and> logs = [] \<and> state env' = RevertToSnapshot D snap s2 \<and>
            txs env' = txs env \<and> receipts env' = receipts env \<and> tcount env' = tcount env) \<and>
         (\<forall>rc. res = Inr rc \<longrightarrow>
            err = None \<and> logs = Logs rc \<and> state env' = s2 \<and>
            txs env' = txs env @ [t] \<and> receipts env' = receipts env @ [rc] \<and> tcount env' = tcount env)"
  using assms by (auto simp: commitTransaction_def Let_def)

theorem commitTransaction_atomic_witness:
  "commitTransaction exDeps (exEnv\<lparr>gasPool := Some 50000\<rparr>) (Some (exTx 5)) =
     (([], Some (Wrap ''nonce too low'' ErrNonceTooLow)), exEnv\<lparr>gasPool := Some 50000\<rparr>) \<and>
   fst (commitTransaction exDeps (exEnv\<lparr>gasPool := Some 50000\<rparr>) (Some (exTx 6))) = ([106], None) \<and>
   txs (snd (commitTransaction exDeps (exEnv\<lparr>gasPool := Some 50000\<rparr>) (Some (exTx 6)))) = [exTx 6]"
  using commitTransaction_atomic[of exDeps "exEnv\<lparr>gasPool := Some 50000\<rparr>" 0 "(6, [6])" "exTx 5"
          "Inl (Wrap ''nonce too low'' ErrNonceTooLow)" "Some 50000" "(106, [6])" 0 "[]"
          "Some (Wrap ''nonce too low'' ErrNonceTooLow)" "exEnv\<lparr>gasPool := Some 50000\<rparr>"]
        commitTransaction_atomic[of exDeps "exEnv\<lparr>gasPool := Some 50000\<rparr>" 0 "(6, [6])" "exTx 6"
          "Inr \<lparr>rTxHash = 106, Logs = [106]\<rparr>" "Some 29000" "(7, [6])" 21000 "[106]" None
          "snd (commitTransaction exDeps (exEnv\<lparr>gasPool := Some 50000\<rparr>) (Some (exTx 6)))"]
  by (simp add: commitTransaction_def Let_def exDeps_def exApply_def exEnv_def exTx_def exHeader_def)

text \<open>
  C7. For every task that \<^verbatim>\<open>taskLoop\<close> receives, whether or not its seal hash is that
  of the previous task: the stop channel of the previous task, if there is one, is
  closed; a new stop channel is made; \<open>prev\<close> becomes the seal hash; and the table of
  pending tasks maps the seal hash to the task.
\<close>

theorem taskLoop_task_dispatch:
  "closed (taskLoop_task SealHash task l) =
     closed l @ (case stopCh l of None \<Rightarrow> [] | Some ch \<Rightarrow> [ch]) \<and>
   stopCh (taskLoop_task SealHash task l) = Some (made l) \<and>
   made (taskLoop_task SealHash task l) = Suc (made l) \<and>
   prev (taskLoop_task SealHash task l) = SealHash (blockHeader (taskBlock task)) \<and>
   pendingTasks (taskLoop_task SealHash task l) =
     (pendingTasks l)(SealHash (blockHeader (taskBlock task)) \<mapsto> task)"
  by (simp add: taskLoop_task_def interruptSeal_def Let_def split: option.splits)

text \<open>
  C7, the duplicate: a second task with the seal hash of the first one closes the
  stop channel of the first and replaces it in the table of pending tasks.
\<close>

theorem taskLoop_task_dispatch_counterexample:
  "exHash (blockHeader (taskBlock (exTask 2))) = prev (taskLoop exHash [TaskEv (exTask 1)] taskLoop_init) \<and>
   stopCh (taskLoop exHash [TaskEv (exTask 1)] taskLoop_init) = Some 0 \<and>
   closed (taskLoop exHash [TaskEv (exTask 1)] taskLoop_init) = [] \<and>
   closed (taskLoop exHash [TaskEv (exTask 1), TaskEv (exTask 2)] taskLoop_init) = [0] \<and>
   pendingTasks (taskLoop exHash [TaskEv (exTask 1)] taskLoop_init) 1070 = Some (exTask 1) \<and>
   pendingTasks (taskLoop exHash [TaskEv (exTask 1), TaskEv (exTask 2)] taskLoop_init) 1070 = Some (exTask 2) \<and>
   exTask 2 \<noteq> exTask 1"
  by (simp add: taskLoop_task_def interruptSeal_def taskLoop_init_def exTask_def exHash_def exHeader_def Let_def)

text \<open>
  C8. \<^verbatim>\<open>newWorker\<close> starts the resubmit loop with the configured interval raised to
  1 s: an interval below 1 s becomes 1 s, and any other interval, also one above 15 s,
  is used as it is, for \<open>recommit\<close> and for \<open>minRecommit\<close>.
\<close>

theorem newWorker_recommit:
  "snd (newWorker configRecommit) = newWorkLoop (max minRecommitInterval configRecommit) \<and>
   recommit (snd (newWorker configRecommit)) = max (1 * 1000000000) configRecommit \<and>
   minRecommit (snd (newWorker configRecommit)) = max (1 * 1000000000) configRecommit"
  by (simp add: newWorker_def newWorkLoop_def minRecommitInterval_def Let_def max_def)

text \<open>
  C8, the upper bound: with 20 s configured, the resubmit loop starts with 20 s and not
  with 15 s.
\<close>

theorem newWorker_recommit_counterexample:
  "maxRecommitInterval < 20 * 1000000000 \<and>
   recommit (snd (newWorker (20 * 1000000000))) = 20 * 1000000000 \<and>
   recommit (snd (newWorker (20 * 1000000000))) \<noteq> maxRecommitInterval"
  by (simp add: newWorker_def newWorkLoop_def minRecommitInterval_def maxRecommitInterval_def Let_def)

text \<open>
  C9. The environment \<open>exPtrEnv\<close> has one receipt, the struct at address 0, with one
  log entry, the object at address 0 of the logs. \<^verbatim>\<open>updateSnapshot\<close> stores as the
  snapshot's receipt a new struct, at address 1, whose \<^verbatim>\<open>Logs\<close> holds the pointer of
  the environment's receipt: the log entry is shared, not copied. The snapshot's
  receipt reads with the log 106; after a write of 999 to the log entry of the
  environment's receipt, it reads with the log 999. The copy of the receipts that
  \<^verbatim>\<open>updateSnapshot\<close> stores is one struct deep, and a write to a log entry of the
  environment shows in the snapshot.
\<close>

theorem updateSnapshot_shares_logs:
  "receipts exPtrEnv = [0] \<and>
   snapshotReceipts (fst exSnapshot) = Some [1] \<and>
   structLogs (receiptObjs (snd exSnapshot) 0) = [0] \<and>
   structLogs (receiptObjs (snd exSnapshot) 1) = structLogs (receiptObjs (snd exSnapshot) 0) \<and>
   receiptAt (snd exSnapshot) 1 = \<lparr>rTxHash = 106, Logs = [106]\<rparr> \<and>
   receiptAt ((snd exSnapshot)\<lparr>logObjs := (logObjs (snd exSnapshot))(0 := 999)\<rparr>) 1 =
     \<lparr>rTxHash = 106, Logs = [999]\<rparr>"
  by (simp add: exSnapshot_def updateSnapshot_def exCopy_def exPtrEnv_def exStore_def newWorker_def
        receiptAt_def Let_def)

text \<open>
  C10. While the snapshot state is \<^verbatim>\<open>nil\<close>, \<^verbatim>\<open>pending\<close> returns \<^verbatim>\<open>(nil, nil)\<close> and
  copies nothing: the store is as before. In a worker fresh from \<^verbatim>\<open>newWorker\<close>, where
  no snapshot has been published, \<^verbatim>\<open>pending\<close>, \<^verbatim>\<open>pendingBlock\<close> and
  \<^verbatim>\<open>pendingBlockAndReceipts\<close> return \<^verbatim>\<open>nil\<close> values; the latter two return the
  snapshot fields as they are, without an error.
\<close>

theorem pending_before_snapshot:
  "(snapshotState w = None \<longrightarrow> pending cp w h = ((None, None), h)) \<and>
   pending cp (fst (newWorker configRecommit)) h = ((None, None), h) \<and>
   pendingBlock (fst (newWorker configRecommit)) = None \<and>
   pendingBlockAndReceipts (fst (newWorker configRecommit)) = (None, None) \<and>
   pendingBlock w = snapshotBlock w \<and>
   pendingBlockAndReceipts w = (snapshotBlock w, snapshotReceipts w)"
  by (simp add: pending_def pendingBlock_def pendingBlockAndReceipts_def newWorker_def Let_def)

theorem pending_before_snapshot_witness:
  "pending exCopy \<lparr>snapshotBlock = None, snapshotReceipts = None, snapshotState = None\<rparr> exStore =
     ((None, None), exStore) \<and>
   pending exCopy (fst (newWorker 0)) exStore = ((None, None), exStore)"
  using pending_before_snapshot[of "\<lparr>snapshotBlock = None, snapshotReceipts = None, snapshotState = None\<rparr>"
      exCopy exStore 0]
  by simp

end
